theory Spec2Isabelle
  imports Main "HOL-Library.Word"
begin

unbundle bit_operations_syntax

section \<open>Machine words\<close>

text \<open>
  \<^verbatim>\<open>UInt_t\<close> is an unsigned 32-bit integer: arithmetic wraps, \<open>drop_bit\<close> is
  the logical right shift, comparison is unsigned.
\<close>

type_synonym u32 = "32 word"

section \<open>PipeliningModule (hana_decode/PipeliningModule.cxx)\<close>

text \<open>Messages the module writes to \<^verbatim>\<open>cerr\<close>, in the order they are written.\<close>

datatype pm_diag =
  InconsistentSlotNum
  | NumEventsInconsistent
  | NoEventBuffers
  | IndexProblem

text \<open>
  The members of the class that \<^verbatim>\<open>SplitBuffer\<close>, \<^verbatim>\<open>GetNextBlock\<close>,
  \<^verbatim>\<open>GetIndex\<close>, \<^verbatim>\<open>ReStart\<close> and \<^verbatim>\<open>PrintBlocks\<close> read or write.
  \<open>fSlot\<close>, \<open>fDebug\<close>, \<open>fMultiBlockMode\<close>, \<open>fBlockIsDone\<close> and \<open>block_size\<close>
  are inherited from the base class \<^verbatim>\<open>Module\<close>. What goes to the debug file
  \<^verbatim>\<open>fDebugFile\<close> is a trace only and is not modelled; \<open>pm_cerr\<close> collects the
  messages sent to \<^verbatim>\<open>cerr\<close>.
\<close>

record PipeliningModule =
  fSlot :: u32
  fDebug :: int
  fMultiBlockMode :: bool
  fBlockIsDone :: bool
  block_size :: u32
  fNWarnings :: u32
  fBlockHeader :: u32
  data_type_def :: u32
  fFirstTime :: bool
  eventblock :: "u32 list list"
  index_buffer :: u32
  pm_cerr :: "pm_diag list"

text \<open>
  Modelled from the spec: the accessors \<^verbatim>\<open>IsMultiBlockMode()\<close> and
  \<^verbatim>\<open>BlockIsDone()\<close> are declared in \<^verbatim>\<open>Module.h\<close>, which is not among the
  sources; the spec's \<open>isDone\<close> and "multiblock mode enabled flag" read the two
  members.
\<close>

definition IsMultiBlockMode :: "PipeliningModule \<Rightarrow> bool" where
  "IsMultiBlockMode m = fMultiBlockMode m"

definition BlockIsDone :: "PipeliningModule \<Rightarrow> bool" where
  "BlockIsDone m = fBlockIsDone m"

text \<open>
  The constructor \<^verbatim>\<open>PipeliningModule(crate, slot)\<close>: the members as initialised
  there, followed by \<^verbatim>\<open>ReStart()\<close>. \<open>fDebug\<close> and \<open>block_size\<close> start at 0 in the
  base class.
\<close>

definition ReStart :: "PipeliningModule \<Rightarrow> PipeliningModule" where
  "ReStart m = m\<lparr>index_buffer := 0, fBlockIsDone := False\<rparr>"

definition PipeliningModule_new :: "u32 \<Rightarrow> PipeliningModule" where
  "PipeliningModule_new slot =
     ReStart \<lparr>fSlot = slot, fDebug = 0, fMultiBlockMode = False, fBlockIsDone = False,
       block_size = 0, fNWarnings = 0, fBlockHeader = 0, data_type_def = 15,
       fFirstTime = True, eventblock = [], index_buffer = 0, pm_cerr = []\<rparr>"

subsection \<open>GetIndex and GetNextBlock\<close>

text \<open>
  \<^verbatim>\<open>GetIndex\<close>: \<open>idx = index_buffer - 1\<close> in unsigned arithmetic; the index is
  returned when \<open>index_buffer > 0\<close> and \<open>idx < eventblock.size()\<close>, otherwise a
  warning is written and 0 is returned.
\<close>

definition GetIndex :: "PipeliningModule \<Rightarrow> nat \<times> PipeliningModule" where
  "GetIndex m =
     (let idx = index_buffer m - 1 in
      if 0 < index_buffer m \<and> unat idx < length (eventblock m) then (unat idx, m)
      else (0, m\<lparr>pm_cerr := pm_cerr m @ [IndexProblem]\<rparr>))"

definition GetNextBlock :: "PipeliningModule \<Rightarrow> u32 list \<times> PipeliningModule" where
  "GetNextBlock m =
     (if eventblock m = [] then ([], m\<lparr>pm_cerr := pm_cerr m @ [NoEventBuffers]\<rparr>)
      else if \<not> IsMultiBlockMode m then (eventblock m ! 0, m)
      else
        let m1 = (if unat (index_buffer m) = length (eventblock m) - 1
                  then m\<lparr>fBlockIsDone := True\<rparr> else m);
            m2 = m1\<lparr>index_buffer := index_buffer m1 + 1\<rparr>;
            (i, m3) = GetIndex m2
        in (eventblock m3 ! i, m3))"

subsection \<open>PrintBlocks\<close>

datatype pm_exception = RuntimeError_infinite_loop_PrintBlocks

definition maxloops :: nat where
  "maxloops = 5000000"

text \<open>
  A member function returns its result, or the exception it throws, together
  with the module as it is left.

  The loop of \<^verbatim>\<open>PrintBlocks\<close>: \<^verbatim>\<open>while (!BlockIsDone()) { if (icnt++ > maxloops)
  throw ...; GetNextBlock(); ... }\<close>. The counter is compared before it is
  incremented.
\<close>

function PrintBlocks_loop :: "nat \<Rightarrow> PipeliningModule \<Rightarrow> (pm_exception + unit) \<times> PipeliningModule" where
  "PrintBlocks_loop icnt m =
     (if BlockIsDone m then (Inr (), m)
      else if icnt > maxloops then (Inl RuntimeError_infinite_loop_PrintBlocks, m)
      else PrintBlocks_loop (icnt + 1) (snd (GetNextBlock m)))"
  by pat_completeness auto
termination
  by (relation "measure (\<lambda>(icnt, m). maxloops + 1 - icnt)") auto

declare PrintBlocks_loop.simps [simp del]

definition PrintBlocks :: "PipeliningModule \<Rightarrow> (pm_exception + unit) \<times> PipeliningModule" where
  "PrintBlocks m =
     (if \<not> IsMultiBlockMode m then (Inr (), m)
      else case PrintBlocks_loop 0 (ReStart m) of
             (Inl e, m') \<Rightarrow> (Inl e, m')
           | (Inr u, m') \<Rightarrow> (Inr (), ReStart m'))"

subsection \<open>SplitBuffer\<close>

text \<open>The local variables of \<^verbatim>\<open>SplitBuffer\<close> that live across loop iterations.\<close>

record split_locals =
  oneEventBuffer :: "u32 list"
  eventnum :: u32
  slot_blk_hdr :: u32
  slot_evt_hdr :: u32
  BlockStart :: u32

text \<open>
  One iteration of \<^verbatim>\<open>for (UInt_t data : codabuffer)\<close>. \<open>data_type_def\<close> is a
  member: it is overwritten only by a word with bit 31 set and otherwise keeps
  the value the previous tagged word gave it.
\<close>

definition split_case0 :: "u32 \<Rightarrow> u32 \<Rightarrow> PipeliningModule \<times> split_locals \<Rightarrow> PipeliningModule \<times> split_locals" where
  "split_case0 data_type_id data = (\<lambda>(m, l).
     if data_type_id \<noteq> 0 then
       let m1 = m\<lparr>fBlockHeader := data\<rparr>;
           l1 = l\<lparr>slot_blk_hdr := drop_bit 22 data AND 0x1F\<rparr>;
           m2 = m1\<lparr>block_size := drop_bit 0 data AND 0xFF\<rparr>;
           m3 = (if 1 < block_size m2 then m2\<lparr>fMultiBlockMode := True\<rparr> else m2);
           l2 = (if fMultiBlockMode m3 \<and> slot_blk_hdr l1 = fSlot m3 then l1\<lparr>BlockStart := 1\<rparr> else l1)
       in (m3, l2)
     else (m, l))"

definition split_case1 :: "u32 \<Rightarrow> PipeliningModule \<times> split_locals \<Rightarrow> PipeliningModule \<times> split_locals" where
  "split_case1 data = (\<lambda>(m, l).
     let slot_blk_trl = drop_bit 22 data AND 0x1F in
     if fMultiBlockMode m \<and> slot_blk_trl = fSlot m then
       let l1 = l\<lparr>BlockStart := BlockStart l + 1\<rparr>;
           l2 = l1\<lparr>oneEventBuffer := oneEventBuffer l1 @ [data]\<rparr>;
           m1 = m\<lparr>eventblock := eventblock m @ [oneEventBuffer l2]\<rparr>;
           l3 = l2\<lparr>oneEventBuffer := []\<rparr>
       in (m1, l3)
     else (m, l))"

definition split_case2 :: "u32 \<Rightarrow> PipeliningModule \<times> split_locals \<Rightarrow> PipeliningModule \<times> split_locals" where
  "split_case2 data = (\<lambda>(m, l).
     let l1 = l\<lparr>slot_evt_hdr := drop_bit 22 data AND 0x1F\<rparr>;
         evt_num = data AND 0x3FFFFF;
         evt_num_modblock = (if block_size m = 0 then 0 else evt_num mod block_size m);
         l2 = (if slot_blk_hdr l1 = fSlot m then l1\<lparr>BlockStart := BlockStart l1 + 1\<rparr> else l1)
     in
     if fMultiBlockMode m \<and> slot_blk_hdr l2 = fSlot m then
       let (m1, l3) =
             (if BlockStart l2 \<noteq> 2
              then (m\<lparr>eventblock := eventblock m @ [oneEventBuffer l2]\<rparr>, l2\<lparr>oneEventBuffer := []\<rparr>)
              else (m, l2));
           l4 = l3\<lparr>eventnum := evt_num_modblock\<rparr>;
           l5 = l4\<lparr>oneEventBuffer := oneEventBuffer l4 @ [fBlockHeader m1]\<rparr>;
           l6 = l5\<lparr>oneEventBuffer := oneEventBuffer l5 @ [data]\<rparr>
       in (m1, l6)
     else (m, l2))"

definition split_default :: "u32 \<Rightarrow> PipeliningModule \<times> split_locals \<Rightarrow> PipeliningModule \<times> split_locals" where
  "split_default data = (\<lambda>(m, l).
     let m1 = (if slot_blk_hdr l \<noteq> slot_evt_hdr l
               then (let w = fNWarnings m; m' = m\<lparr>fNWarnings := w + 1\<rparr>
                     in if w mod 100 = 0 then m'\<lparr>pm_cerr := pm_cerr m' @ [InconsistentSlotNum]\<rparr> else m')
               else m)
     in
     if fMultiBlockMode m1 \<and> slot_blk_hdr l = fSlot m1
     then (m1, l\<lparr>oneEventBuffer := oneEventBuffer l @ [data]\<rparr>)
     else (m1, l))"

definition split_word :: "PipeliningModule \<times> split_locals \<Rightarrow> u32 \<Rightarrow> PipeliningModule \<times> split_locals" where
  "split_word = (\<lambda>(m, l) data.
     let data_type_id = drop_bit 31 data AND 0x1;
         m1 = (if data_type_id = 1 then m\<lparr>data_type_def := drop_bit 27 data AND 0xF\<rparr> else m)
     in
     if data_type_def m1 = 0 then split_case0 data_type_id data (m1, l)
     else if data_type_def m1 = 1 then split_case1 data (m1, l)
     else if data_type_def m1 = 2 then split_case2 data (m1, l)
     else split_default data (m1, l))"

definition split_locals_init :: split_locals where
  "split_locals_init =
     \<lparr>oneEventBuffer = [], eventnum = 1, slot_blk_hdr = 0, slot_evt_hdr = 0, BlockStart = 0\<rparr>"

text \<open>
  The \<^verbatim>\<open>for\<close> loop over the buffer, from \<open>block_size = 0\<close> and the initial
  locals. \<^verbatim>\<open>SplitBuffer\<close> returns its \<^verbatim>\<open>Int_t\<close> result, or passes on the
  exception that \<^verbatim>\<open>PrintBlocks\<close> throws when it is called at debug level 1 or
  higher.
\<close>

definition split_scan :: "PipeliningModule \<Rightarrow> u32 list \<Rightarrow> PipeliningModule \<times> split_locals" where
  "split_scan m0 codabuffer =
     foldl split_word (m0\<lparr>block_size := 0\<rparr>, split_locals_init) codabuffer"

definition SplitBuffer :: "PipeliningModule \<Rightarrow> u32 list \<Rightarrow> (pm_exception + int) \<times> PipeliningModule" where
  "SplitBuffer m codabuffer =
     (let m0 = m\<lparr>eventblock := [], fBlockIsDone := False\<rparr> in
      if \<not> fFirstTime m0 \<and> \<not> IsMultiBlockMode m0 then
        (Inr 1, m0\<lparr>eventblock := eventblock m0 @ [codabuffer], index_buffer := 1\<rparr>)
      else
        let (m1, l) = split_scan m0 codabuffer;
            m2 = m1\<lparr>fFirstTime := False\<rparr>
        in
        if \<not> IsMultiBlockMode m2 then
          (Inr 1, m2\<lparr>eventblock := eventblock m2 @ [codabuffer], index_buffer := 1\<rparr>)
        else
          let m3 = (if unat (block_size m2) \<noteq> length (eventblock m2)
                    then m2\<lparr>pm_cerr := pm_cerr m2 @ [NumEventsInconsistent]\<rparr> else m2)
          in if 1 \<le> fDebug m3
             then (case PrintBlocks m3 of (Inl e, m4) \<Rightarrow> (Inl e, m4) | (Inr u, m4) \<Rightarrow> (Inr 0, m4))
             else (Inr 0, m3))"

definition is_block_header :: "u32 \<Rightarrow> bool" where
  "is_block_header w \<longleftrightarrow> drop_bit 31 w AND 1 = 1 \<and> drop_bit 27 w AND 0xF = 0"

definition declared_block_size :: "u32 \<Rightarrow> u32" where
  "declared_block_size w = w AND 0xFF"

definition is_untagged :: "u32 \<Rightarrow> bool" where
  "is_untagged w \<longleftrightarrow> drop_bit 31 w AND 1 = 0"

definition is_data_def :: "u32 \<Rightarrow> bool" where
  "is_data_def w \<longleftrightarrow> drop_bit 31 w AND 1 = 1 \<and> 2 < drop_bit 27 w AND 0xF"

fun drain :: "nat \<Rightarrow> PipeliningModule \<Rightarrow> u32 list list \<times> PipeliningModule" where
  "drain 0 m = ([], m)"
| "drain (Suc n) m =
     (let (b, m1) = GetNextBlock m; (bs, m2) = drain n m1 in (b # bs, m2))"

definition is_block_trailer :: "u32 \<Rightarrow> bool" where
  "is_block_trailer w \<longleftrightarrow> drop_bit 31 w AND 1 = 1 \<and> drop_bit 27 w AND 0xF = 1"

definition is_event_header :: "u32 \<Rightarrow> bool" where
  "is_event_header w \<longleftrightarrow> drop_bit 31 w AND 1 = 1 \<and> drop_bit 27 w AND 0xF = 2"

definition scan_frame :: "PipeliningModule \<Rightarrow> PipeliningModule \<Rightarrow> bool" where
  "scan_frame m m' \<longleftrightarrow> fSlot m' = fSlot m \<and> fDebug m' = fDebug m \<and> fFirstTime m' = fFirstTime m
     \<and> index_buffer m' = index_buffer m \<and> fBlockIsDone m' = fBlockIsDone m
     \<and> (fMultiBlockMode m \<longrightarrow> fMultiBlockMode m')"

section \<open>FastbusModule (hana_decode/FastbusModule.cxx)\<close>

text \<open>
  The members of the class that \<^verbatim>\<open>Decode\<close> and \<^verbatim>\<open>LoadSlot\<close> read or write. The
  slot of a Fastbus module is the member \<^verbatim>\<open>fSlot\<close> of the base class; the field
  is called \<open>fSlot_fb\<close> here because a record field name is global.
  \<open>fDebugFile\<close> is \<open>None\<close> for a null pointer and otherwise holds the lines
  written to the debug file so far.
\<close>

datatype fb_trace =
  TrLoadslot
  | TrHasHeader bool
  | TrModelNum int
  | TrHeader u32
  | TrChanData u32 u32 u32
  | TrWordsExpected u32
  | TrWordCountError u32 u32 u32 u32

datatype fb_diag = CrateOutOfBounds | SlotOutOfBounds

record FastbusModule =
  fCrate :: u32
  fSlot_fb :: u32
  fModelNum :: int
  fHasHeader :: bool
  fSlotMask :: u32
  fSlotShift :: u32
  fChanMask :: u32
  fChanShift :: u32
  fDataMask :: u32
  fWdcntMask :: u32
  fHeader :: u32
  fWordsSeen :: u32
  fChan :: u32
  fData :: u32
  fRawData :: u32
  fDebugFile :: "fb_trace list option"

text \<open>\<^verbatim>\<open>if (fDebugFile) *fDebugFile << ...\<close>\<close>

definition fb_debug :: "fb_trace \<Rightarrow> FastbusModule \<Rightarrow> FastbusModule" where
  "fb_debug t m = (case fDebugFile m of None \<Rightarrow> m | Some ls \<Rightarrow> m\<lparr>fDebugFile := Some (ls @ [t])\<rparr>)"

text \<open>
  Modelled from the spec: \<^verbatim>\<open>IsSlot\<close>, \<^verbatim>\<open>Chan\<close> and \<^verbatim>\<open>Data\<close> are defined in
  \<^verbatim>\<open>FastbusModule.h\<close>, which is not among the sources. The spec: a word belongs
  to the module when its slot-mask bits, shifted down, equal the configured
  slot (mask 0xF8000000 and shift 27 by default); \<open>decodeWord\<close> applies the
  channel mask and shift and the data mask.
\<close>

definition IsSlot :: "FastbusModule \<Rightarrow> u32 \<Rightarrow> bool" where
  "IsSlot m rdata \<longleftrightarrow> drop_bit (unat (fSlotShift m)) (rdata AND fSlotMask m) = fSlot_fb m"

definition Chan :: "FastbusModule \<Rightarrow> u32 \<Rightarrow> u32" where
  "Chan m rdata = drop_bit (unat (fChanShift m)) (rdata AND fChanMask m)"

definition Data :: "FastbusModule \<Rightarrow> u32 \<Rightarrow> u32" where
  "Data m rdata = rdata AND fDataMask m"

text \<open>\<^verbatim>\<open>FastbusModule::Init\<close> and \<^verbatim>\<open>FastbusModule::Decode\<close>.\<close>

definition Init_fb :: "FastbusModule \<Rightarrow> FastbusModule" where
  "Init_fb m = m\<lparr>fSlotMask := 0xf8000000, fSlotShift := 27, fDebugFile := None\<rparr>"

definition Decode :: "FastbusModule \<Rightarrow> u32 \<Rightarrow> FastbusModule" where
  "Decode m w = m\<lparr>fChan := Chan m w, fData := Data m w, fRawData := w\<rparr>"

text \<open>
  The limits \<^verbatim>\<open>MAXROC\<close> and \<^verbatim>\<open>MAXSLOT_FB\<close> are constants of a header that is not
  among the sources; they are parameters of the model.
\<close>

record fb_limits =
  MAXROC :: u32
  MAXSLOT_FB :: u32

text \<open>
  The slot data sink: \<^verbatim>\<open>sldat->loadData(fChan, fData, fRawData)\<close> appends one
  hit. The event buffer is an array \<open>mem\<close>; \<^verbatim>\<open>evbuffer\<close> and \<^verbatim>\<open>p\<close> are indices
  into it, \<^verbatim>\<open>pstop\<close> is an index that may lie before the array. Reading at an
  index outside the array has no defined result: the model returns \<open>None\<close>.
\<close>

type_synonym fb_hit = "u32 \<times> u32 \<times> u32"

text \<open>
  The loop \<^verbatim>\<open>while (IsSlot(*p)) { ...; fWordsSeen++; p++; if (p > pstop) break; }\<close>.
\<close>

function LoadSlot_loop ::
  "u32 list \<Rightarrow> int \<Rightarrow> FastbusModule \<Rightarrow> fb_hit list \<Rightarrow> nat \<Rightarrow> (FastbusModule \<times> fb_hit list) option" where
  "LoadSlot_loop mem pstop m sldat p =
     (if p < length mem then
        if IsSlot m (mem ! p) then
          let (m1, sldat1) =
                (if fHasHeader m \<and> fWordsSeen m = 0
                 then (fb_debug (TrHeader (mem ! p)) (m\<lparr>fHeader := mem ! p\<rparr>), sldat)
                 else
                   let d = Decode m (mem ! p)
                   in (fb_debug (TrChanData (fChan d) (fData d) (mem ! p)) d,
                       sldat @ [(fChan d, fData d, fRawData d)]));
              m2 = m1\<lparr>fWordsSeen := fWordsSeen m1 + 1\<rparr>
          in if int (p + 1) > pstop then Some (m2, sldat1)
             else LoadSlot_loop mem pstop m2 sldat1 (p + 1)
        else Some (m, sldat)
      else None)"
  by pat_completeness auto
termination
  by (relation "measure (\<lambda>(mem, pstop, m, sldat, p). length mem - p)") auto

declare LoadSlot_loop.simps [simp del]

text \<open>
  The block guarded by the function-local \<^verbatim>\<open>static int first_load\<close>. A static
  local belongs to the function, not to the object: one flag is shared by all
  Fastbus modules of the process, so it is passed in and returned.
\<close>

definition first_load_check ::
  "fb_limits \<Rightarrow> bool \<Rightarrow> FastbusModule \<Rightarrow> bool \<times> FastbusModule \<times> fb_diag list" where
  "first_load_check lim first_load m =
     (if first_load then
        let (m1, e1) = (if MAXROC lim \<le> fCrate m then (m\<lparr>fCrate := 0\<rparr>, [CrateOutOfBounds]) else (m, []));
            (m2, e2) = (if MAXSLOT_FB lim < fSlot_fb m1 then (m1\<lparr>fSlot_fb := 0\<rparr>, [SlotOutOfBounds]) else (m1, []))
        in (False, m2, e1 @ e2)
      else (first_load, m, []))"

text \<open>The check after the loop: a header word was captured when \<open>fHeader \<noteq> 0\<close>.\<close>

definition word_count_check :: "FastbusModule \<Rightarrow> FastbusModule" where
  "word_count_check m =
     (if fHeader m \<noteq> 0 then
        let fWordsExpect = fHeader m AND fWdcntMask m;
            m1 = fb_debug (TrWordsExpected fWordsExpect) m
        in if fWordsExpect \<noteq> fWordsSeen m1
           then fb_debug (TrWordCountError (fCrate m1) (fSlot_fb m1) fWordsExpect (fWordsSeen m1)) m1
           else m1
      else m)"

text \<open>
  What a call of \<^verbatim>\<open>LoadSlot\<close> leaves behind: the value returned, the module,
  the static flag, the hits appended to the sink and the messages on \<^verbatim>\<open>cerr\<close>.
\<close>

record LoadSlot_result =
  ls_return :: u32
  ls_module :: FastbusModule
  ls_first_load :: bool
  ls_hits :: "fb_hit list"
  ls_cerr :: "fb_diag list"

definition LoadSlot ::
  "fb_limits \<Rightarrow> bool \<Rightarrow> FastbusModule \<Rightarrow> u32 list \<Rightarrow> nat \<Rightarrow> int \<Rightarrow> LoadSlot_result option" where
  "LoadSlot lim first_load m mem evbuffer pstop =
     (let (first_load', m1, errs) = first_load_check lim first_load m;
          m2 = m1\<lparr>fWordsSeen := 0, fHeader := 0\<rparr>;
          m3 = fb_debug (TrModelNum (fModelNum m2)) (fb_debug (TrHasHeader (fHasHeader m2)) (fb_debug TrLoadslot m2))
      in case LoadSlot_loop mem pstop m3 [] evbuffer of
           None \<Rightarrow> None
         | Some (m4, hits) \<Rightarrow>
             let m5 = word_count_check m4
             in Some \<lparr>ls_return = fWordsSeen m5, ls_module = m5, ls_first_load = first_load',
                      ls_hits = hits, ls_cerr = errs\<rparr>)"


subsection \<open>Notions used to state the properties of LoadSlot\<close>

text \<open>
  \<open>fb_decode\<close> is the hit that \<^verbatim>\<open>Decode\<close> followed by \<^verbatim>\<open>loadData\<close> produces for
  a word. \<open>slot_run\<close> is the run of words that \<^verbatim>\<open>LoadSlot\<close> is meant to
  consume: the words from \<^verbatim>\<open>evbuffer\<close> up to and including \<^verbatim>\<open>pstop\<close>, cut
  before the first one that is not of the module's slot. \<open>same_config\<close> relates
  two states of a module with the same configuration. \<open>loop_body\<close> is one
  iteration of the loop of \<^verbatim>\<open>LoadSlot\<close> on a matching word. \<open>ls_observable\<close>
  is the result of a call without the word-count mask and the debug file.
\<close>

definition fb_decode :: "FastbusModule \<Rightarrow> u32 \<Rightarrow> fb_hit" where
  "fb_decode m w = (Chan m w, Data m w, w)"

definition slot_run :: "FastbusModule \<Rightarrow> u32 list \<Rightarrow> nat \<Rightarrow> int \<Rightarrow> u32 list" where
  "slot_run m mem evbuffer pstop =
     takeWhile (IsSlot m) (take (nat (pstop + 1 - int evbuffer)) (drop evbuffer mem))"

definition same_config :: "FastbusModule \<Rightarrow> FastbusModule \<Rightarrow> bool" where
  "same_config m m' \<longleftrightarrow>
     fSlot_fb m' = fSlot_fb m \<and> fCrate m' = fCrate m \<and> fHasHeader m' = fHasHeader m
     \<and> fSlotMask m' = fSlotMask m \<and> fSlotShift m' = fSlotShift m
     \<and> fChanMask m' = fChanMask m \<and> fChanShift m' = fChanShift m
     \<and> fDataMask m' = fDataMask m \<and> fWdcntMask m' = fWdcntMask m \<and> fModelNum m' = fModelNum m"

definition loop_body :: "FastbusModule \<Rightarrow> fb_hit list \<Rightarrow> u32 \<Rightarrow> FastbusModule \<times> fb_hit list" where
  "loop_body m sldat w =
     (let (m1, sldat1) =
            (if fHasHeader m \<and> fWordsSeen m = 0
             then (fb_debug (TrHeader w) (m\<lparr>fHeader := w\<rparr>), sldat)
             else
               let d = Decode m w
               in (fb_debug (TrChanData (fChan d) (fData d) w) d,
                   sldat @ [(fChan d, fData d, fRawData d)]))
      in (m1\<lparr>fWordsSeen := fWordsSeen m1 + 1\<rparr>, sldat1))"

definition fb_example_module :: "u32 \<Rightarrow> u32 \<Rightarrow> FastbusModule" where
  "fb_example_module crate slot =
     \<lparr>fCrate = crate, fSlot_fb = slot, fModelNum = 1877, fHasHeader = True,
      fSlotMask = 0xf8000000, fSlotShift = 27, fChanMask = 0x00FE0000, fChanShift = 17,
      fDataMask = 0xFFFF, fWdcntMask = 0x7F, fHeader = 0, fWordsSeen = 0,
      fChan = 0, fData = 0, fRawData = 0, fDebugFile = None\<rparr>"

definition fb_example_limits :: fb_limits where
  "fb_example_limits = \<lparr>MAXROC = 32, MAXSLOT_FB = 26\<rparr>"

definition fb_example_buffer :: "u32 list" where
  "fb_example_buffer = [0x28000003, 0x28020123, 0x28040456, 0x30000001]"

definition ls_observable :: "LoadSlot_result \<Rightarrow> u32 \<times> fb_hit list \<times> fb_diag list \<times> bool \<times> FastbusModule" where
  "ls_observable r = (ls_return r, ls_hits r, ls_cerr r, ls_first_load r, (ls_module r)\<lparr>fWdcntMask := 0, fDebugFile := None\<rparr>)"

section \<open>THaEtClient (hana_decode/THaEtClient.cxx)\<close>

text \<open>
  The ET library and the status macros come from headers outside the
  repository. A status is a value of a datatype; the outcome of every ET call
  made during one call of a member function is an input of the model. An ET
  status other than \<open>ET_OK\<close> is negative.
\<close>

datatype coda_status = CODA_OK | CODA_ERROR

datatype et_status =
  ET_OK
  | ET_ERROR_EXISTS
  | ET_ERROR_TOOMANY
  | ET_ERROR_REMOTE
  | ET_ERROR_READ
  | ET_ERROR_WRITE
  | ET_ERROR_TIMEOUT
  | ET_ERROR

text \<open>
  An event as the ET system hands it over: the data words (\<^verbatim>\<open>Int_t\<close>, read
  as signed 32-bit values) and the length in bytes that
  \<^verbatim>\<open>et_event_getlength\<close> reports.
\<close>

record et_event =
  ev_data :: "u32 list"
  ev_length :: nat

record et_env =
  station_name_ok :: bool
  et_open_status :: et_status
  et_station_create_status :: et_status
  et_station_attach_ok :: bool
  et_events_get_status :: et_status
  et_events_get_chunk :: "et_event list"
  et_events_put_status :: et_status
  et_station_detach_status :: et_status
  et_close_status :: et_status

text \<open>
  The members of the class that \<^verbatim>\<open>init\<close>, \<^verbatim>\<open>codaClose\<close>, \<^verbatim>\<open>codaRead\<close>,
  \<^verbatim>\<open>codaOpen\<close> and \<^verbatim>\<open>isOpen\<close> read or write, apart from the host and session
  strings and the ET handles. The bookkeeping of the event rate
  (\<^verbatim>\<open>firstRateCalc\<close>, \<^verbatim>\<open>evsum\<close>, \<^verbatim>\<open>daqt1\<close>, ...) reads the clock and computes with
  doubles; its only effect is the value of \<^verbatim>\<open>timeout\<close>, which is passed to the ET
  library, and it is left out. \<open>evbuffer_et\<close> is the member \<^verbatim>\<open>evbuffer\<close>; \<open>et_cout\<close>
  collects the error messages printed.
\<close>

datatype et_message =
  BadStationName
  | CannotOpenET
  | StationCreateFailed et_status
  | StationAttachFailed
  | CannotConnectToCODA
  | EventsGetFailed et_status
  | EventFromETTruncated
  | CodaEventTruncated
  | EventsPutFailed
  | DetachFailed
  | CloseFailed

record THaEtClient =
  nread :: int
  nused :: int
  timeout :: int
  waitflag :: int
  didclose :: int
  notopened :: int
  firstread :: int
  evbuffer_et :: "u32 list"
  et_cout :: "et_message list"

definition BIG_TIMEOUT :: int where
  "BIG_TIMEOUT = 20"

text \<open>
  The constructor with three arguments: \<^verbatim>\<open>initflags\<close>, then
  \<^verbatim>\<open>codaOpen(computer, mysession, smode)\<close>, which stores the host and session
  names and the wait mode. The constructors with one and two arguments call
  \<^verbatim>\<open>codaOpen(computer, smode)\<close>, which reads the environment variable
  \<^verbatim>\<open>SESSION\<close> and, when it is not set, returns \<^verbatim>\<open>CODA_ERROR\<close> without storing the
  wait mode; \<open>codaOpen_env\<close> and \<open>THaEtClient_new_env\<close> are these, with the
  value of the variable as an argument.
\<close>

definition initflags :: "u32 list \<Rightarrow> THaEtClient" where
  "initflags buf =
     \<lparr>nread = 0, nused = 0, timeout = BIG_TIMEOUT, waitflag = 0, didclose = 0, notopened = 0,
      firstread = 1, evbuffer_et = buf, et_cout = []\<rparr>"

definition codaOpen :: "int \<Rightarrow> THaEtClient \<Rightarrow> coda_status \<times> THaEtClient" where
  "codaOpen smode c = (CODA_OK, c\<lparr>waitflag := smode\<rparr>)"

definition THaEtClient_new :: "u32 list \<Rightarrow> int \<Rightarrow> THaEtClient" where
  "THaEtClient_new buf smode = snd (codaOpen smode (initflags buf))"

definition codaOpen_env :: "string option \<Rightarrow> int \<Rightarrow> THaEtClient \<Rightarrow> coda_status \<times> THaEtClient" where
  "codaOpen_env s smode c = (case s of None \<Rightarrow> (CODA_ERROR, c) | Some mysession \<Rightarrow> codaOpen smode c)"

definition THaEtClient_new_env :: "string option \<Rightarrow> u32 list \<Rightarrow> int \<Rightarrow> THaEtClient" where
  "THaEtClient_new_env s buf smode = snd (codaOpen_env s smode (initflags buf))"

definition et_say :: "et_message \<Rightarrow> THaEtClient \<Rightarrow> THaEtClient" where
  "et_say msg c = c\<lparr>et_cout := et_cout c @ [msg]\<rparr>"

text \<open>\<^verbatim>\<open>THaEtClient::init\<close>\<close>

definition init :: "et_env \<Rightarrow> THaEtClient \<Rightarrow> coda_status \<times> THaEtClient" where
  "init env c =
     (if \<not> station_name_ok env then (CODA_ERROR, et_say BadStationName c)
      else if et_open_status env \<noteq> ET_OK then (CODA_ERROR, et_say CannotOpenET (c\<lparr>notopened := 1\<rparr>))
      else if et_station_create_status env \<noteq> ET_OK \<and> et_station_create_status env \<noteq> ET_ERROR_EXISTS
        then (CODA_ERROR, et_say (StationCreateFailed (et_station_create_status env)) c)
      else if \<not> et_station_attach_ok env then (CODA_ERROR, et_say StationAttachFailed c)
      else (CODA_OK, c))"

text \<open>\<^verbatim>\<open>THaEtClient::codaClose\<close>\<close>

definition codaClose :: "et_env \<Rightarrow> THaEtClient \<Rightarrow> coda_status \<times> THaEtClient" where
  "codaClose env c =
     (if didclose c \<noteq> 0 \<or> firstread c \<noteq> 0 then (CODA_OK, c)
      else
        let c1 = c\<lparr>didclose := 1\<rparr> in
        if notopened c1 \<noteq> 0 then (CODA_ERROR, c1)
        else if et_station_detach_status env \<noteq> ET_OK then (CODA_ERROR, et_say DetachFailed c1)
        else if et_close_status env \<noteq> ET_OK then (CODA_ERROR, et_say CloseFailed c1)
        else (CODA_OK, c1))"

text \<open>\<^verbatim>\<open>THaEtClient::isOpen\<close>\<close>

definition isOpen :: "THaEtClient \<Rightarrow> bool" where
  "isOpen c \<longleftrightarrow> notopened c = 1 \<and> didclose c = 0"

text \<open>
  \<^verbatim>\<open>THaEtClient::codaRead\<close>. A call returns a status, ends the process with
  \<^verbatim>\<open>exit(1)\<close>, or has no defined behaviour: the array \<^verbatim>\<open>evs\<close> is a local
  variable, filled only when a new chunk is fetched, so a call that finds
  \<open>nused < nread\<close> reads it uninitialised; an event without a first word
  cannot be read; and \<open>*pdata + 1\<close> overflows for the largest \<^verbatim>\<open>Int_t\<close>.

  \<open>chunk_check\<close> is the loop over the fetched events: it stops with the
  truncation error at the first event whose \<open>event_size = *pdata + 1\<close> exceeds
  \<^verbatim>\<open>MAXEVLEN\<close>. \<^verbatim>\<open>MAXEVLEN\<close> is a macro of a header that is not among the sources
  and is a parameter; \<open>bpi\<close> is \<^verbatim>\<open>sizeof(int)\<close>.
\<close>

datatype coda_outcome = Return coda_status | Exit_1 | Undefined

datatype chunk_verdict = ChunkOk | ChunkTruncated | ChunkUndefined

fun chunk_check :: "int \<Rightarrow> et_event list \<Rightarrow> chunk_verdict" where
  "chunk_check MAXEVLEN [] = ChunkOk"
| "chunk_check MAXEVLEN (ev # evs) =
     (case ev_data ev of
        [] \<Rightarrow> ChunkUndefined
      | pdata # rest \<Rightarrow>
          if sint pdata + 1 > 2 ^ 31 - 1 then ChunkUndefined
          else
            let event_size = sint pdata + 1 in
            if event_size > MAXEVLEN then ChunkTruncated
            else chunk_check MAXEVLEN evs)"

definition bpi :: nat where
  "bpi = 4"

text \<open>
  \<^verbatim>\<open>memcpy(evbuffer, data, lencpy)\<close> on arrays of 32-bit words: the first
  \<open>lencpy div bpi\<close> words of the source replace those of the destination. This
  is the effect of \<^verbatim>\<open>memcpy\<close> when the number of bytes is a multiple of \<open>bpi\<close>;
  the bytes of a last, partial word are not modelled.
\<close>

definition memcpy_words :: "u32 list \<Rightarrow> u32 list \<Rightarrow> nat \<Rightarrow> u32 list" where
  "memcpy_words dst src lencpy = take (lencpy div bpi) src @ drop (lencpy div bpi) dst"

definition codaRead :: "int \<Rightarrow> et_env \<Rightarrow> THaEtClient \<Rightarrow> coda_outcome \<times> THaEtClient" where
  "codaRead MAXEVLEN env c =
     (let (st, c1) = (if firstread c \<noteq> 0 then init env (c\<lparr>firstread := 0\<rparr>) else (CODA_OK, c)) in
      if st = CODA_ERROR then (Return CODA_ERROR, et_say CannotConnectToCODA c1)
      else if nused c1 \<ge> nread c1 then
        if et_events_get_status env \<noteq> ET_OK
        then (Return CODA_ERROR,
              (et_say (EventsGetFailed (et_events_get_status env)) c1)\<lparr>nread := 0, nused := 0\<rparr>)
        else
          let evs = et_events_get_chunk env;
              c2 = c1\<lparr>nread := int (length evs), nused := 0\<rparr>
          in case chunk_check MAXEVLEN evs of
               ChunkUndefined \<Rightarrow> (Undefined, c2)
             | ChunkTruncated \<Rightarrow> (Return CODA_ERROR, et_say EventFromETTruncated c2)
             | ChunkOk \<Rightarrow>
                 (case evs of
                    [] \<Rightarrow> (Undefined, c2)
                  | ev # later \<Rightarrow>
                      let nbytes = ev_length ev;
                          lencpy = (if nbytes < bpi * nat MAXEVLEN then nbytes else bpi * nat MAXEVLEN);
                          c3 = c2\<lparr>evbuffer_et := memcpy_words (evbuffer_et c2) (ev_data ev) lencpy\<rparr>;
                          c4 = c3\<lparr>nused := nused c3 + 1\<rparr>
                      in if nbytes > bpi * nat MAXEVLEN then (Return CODA_ERROR, et_say CodaEventTruncated c4)
                         else if nused c4 \<ge> nread c4 then
                           if et_events_put_status env \<noteq> ET_OK then (Exit_1, et_say EventsPutFailed c4)
                           else (Return CODA_OK, c4)
                         else (Return CODA_OK, c4))
      else (Undefined, c1))"


text \<open>An environment in which every ET call succeeds and one chunk is delivered.\<close>

definition et_env_ok :: "et_event list \<Rightarrow> et_env" where
  "et_env_ok evs =
     \<lparr>station_name_ok = True, et_open_status = ET_OK, et_station_create_status = ET_OK,
      et_station_attach_ok = True, et_events_get_status = ET_OK, et_events_get_chunk = evs,
      et_events_put_status = ET_OK, et_station_detach_status = ET_OK, et_close_status = ET_OK\<rparr>"

section \<open>Database support functions (Database/Database.cxx)\<close>

text \<open>
  \<^verbatim>\<open>TDatime\<close> belongs to ROOT and \<^verbatim>\<open>sscanf\<close> to the C library. The database
  functions only construct time stamps and compare them, so the type of time
  stamps is any linear order \<open>'d\<close>, and two parameters stand for the library:
  \<open>scan\<close> is \<^verbatim>\<open>sscanf(s, "%4d-%2d-%2d %2d:%2d:%2d", ...)\<close>, giving the six numbers
  when all six were converted, and \<open>mk\<close> is \<^verbatim>\<open>TDatime::Set(yy, mm, dd, hh, mi, ss)\<close>.
  \<open>date0\<close> is \<^verbatim>\<open>TDatime(950101, 0)\<close>, the initial value of \<^verbatim>\<open>tagdate\<close>,
  \<^verbatim>\<open>keydate\<close> and \<^verbatim>\<open>prevdate\<close>.
\<close>

type_synonym scan6 = "string \<Rightarrow> (int \<times> int \<times> int \<times> int \<times> int \<times> int) option"
type_synonym 'd mkdate = "int \<Rightarrow> int \<Rightarrow> int \<Rightarrow> int \<Rightarrow> int \<Rightarrow> int \<Rightarrow> 'd"

text \<open>\<^verbatim>\<open>std::string::find(c, pos)\<close>: the first index from \<open>pos\<close> on that holds \<open>c\<close>.\<close>

definition str_find :: "char \<Rightarrow> string \<Rightarrow> nat \<Rightarrow> nat option" where
  "str_find c s pos =
     (if dropWhile (\<lambda>x. x \<noteq> c) (drop pos s) = [] then None
      else Some (pos + length (takeWhile (\<lambda>x. x \<noteq> c) (drop pos s))))"

text \<open>
  \<^verbatim>\<open>IsDBdate\<close>: \<open>None\<close> for the result 0, otherwise the time stamp stored in
  \<^verbatim>\<open>date\<close>. \<open>line.size() - 12\<close> is computed in \<^verbatim>\<open>size_t\<close>, taken as 64 bits
  wide, and wraps for a line shorter than 12 characters.
\<close>

definition IsDBdate :: "scan6 \<Rightarrow> 'd mkdate \<Rightarrow> string \<Rightarrow> 'd option" where
  "IsDBdate scan mk line =
     (case str_find (CHR ''['') line 0 of
        None \<Rightarrow> None
      | Some lbrk \<Rightarrow>
          if int lbrk \<ge> (int (length line) - 12) mod 2 ^ 64 then None
          else
            (case str_find (CHR '']'') line lbrk of
               None \<Rightarrow> None
             | Some rbrk \<Rightarrow>
                 if rbrk \<le> lbrk + 11 then None
                 else
                   (case scan (take (rbrk - lbrk - 1) (drop (lbrk + 1) line)) of
                      None \<Rightarrow> None
                    | Some (yy, mm, dd, hh, mi, ss) \<Rightarrow>
                        if yy < 1995 \<or> mm < 1 \<or> mm > 12 \<or> dd < 1 \<or> dd > 31
                           \<or> hh < 0 \<or> hh > 23 \<or> mi < 0 \<or> mi > 59 \<or> ss < 0 \<or> ss > 59
                        then None
                        else Some (mk yy mm dd hh mi ss))))"



subsection \<open>SeekDBdate\<close>


definition newline :: char where
  "newline = CHR 0x0A"

definition chomp :: "string \<Rightarrow> string" where
  "chomp buf = (if buf \<noteq> [] \<and> last buf = newline then butlast buf else buf)"



subsection \<open>ReadDBline\<close>

text \<open>
  \<^verbatim>\<open>GetLine\<close> appends the strings that \<^verbatim>\<open>fgets\<close> returns until one of them
  holds the newline, cut at the newline and with every tab turned into a
  space. The file is the list of the strings not yet read. The first component
  of the loop's result tells whether the last \<^verbatim>\<open>fgets\<close> returned a string
  (\<^verbatim>\<open>r\<close> is not null), and \<^verbatim>\<open>GetLine\<close> returns \<^verbatim>\<open>EOF\<close> when it did not and no
  character was read.
\<close>

definition tab :: char where
  "tab = CHR 0x09"

definition backslash :: char where
  "backslash = CHR 0x5C"

definition EOF :: int where
  "EOF = - 1"

fun GetLine_loop :: "string list \<Rightarrow> string \<Rightarrow> bool \<times> string \<times> string list" where
  "GetLine_loop [] line = (False, line, [])"
| "GetLine_loop (buf # rest) line =
     (let c = (newline \<in> set buf);
          line' = line @ map (\<lambda>x. if x = tab then CHR '' '' else x) (takeWhile (\<lambda>x. x \<noteq> newline) buf)
      in if c then (True, line', rest) else GetLine_loop rest line')"

definition GetLine :: "string list \<Rightarrow> int \<times> string \<times> string list" where
  "GetLine file =
     (let (r, line, rest) = GetLine_loop file [] in
      (if \<not> r \<and> line = [] then EOF else 0, line, rest))"

text \<open>
  \<^verbatim>\<open>IsAssignment\<close>: the string holds a \<open>=\<close> that is not its first non-blank
  character and does not belong to \<^verbatim>\<open>!=\<close>, \<^verbatim>\<open><=\<close>, \<^verbatim>\<open>>=\<close> or \<^verbatim>\<open>==\<close>
  (the characters 0x21, 0x3C and 0x3E are \<^verbatim>\<open>!\<close>, \<^verbatim>\<open><\<close> and \<^verbatim>\<open>>\<close>).
\<close>

definition IsAssignment :: "string \<Rightarrow> bool" where
  "IsAssignment str =
     (case str_find (CHR ''='') str 0 of
        None \<Rightarrow> False
      | Some pos \<Rightarrow>
          if length (takeWhile (\<lambda>x. x = CHR '' '' \<or> x = tab) str) = pos then False
          else \<not> (str ! (pos - 1) = CHR 0x21 \<or> str ! (pos - 1) = CHR 0x3C \<or> str ! (pos - 1) = CHR 0x3E
                  \<or> (pos + 1 < length str \<and> str ! (pos + 1) = CHR ''='')))"

text \<open>
  Modelled from the spec: \<^verbatim>\<open>Trim\<close> is declared outside the sources at hand.
  Following the comment at its call in \<^verbatim>\<open>ReadDBline\<close>, it removes the leading
  and the trailing spaces of the string.
\<close>

definition Trim :: "string \<Rightarrow> string" where
  "Trim s = rev (dropWhile (\<lambda>x. x = CHR '' '') (rev (dropWhile (\<lambda>x. x = CHR '' '') s)))"

text \<open>
  The loop of \<^verbatim>\<open>ReadDBline\<close>. Its arguments are the file, the line built so
  far and \<^verbatim>\<open>maybe_continued\<close>; \<^verbatim>\<open>unfinished\<close> is true whenever the loop is
  entered. The result holds the variables that the code after the loop reads:
  \<^verbatim>\<open>r\<close>, \<^verbatim>\<open>line\<close>, \<^verbatim>\<open>maybe_continued\<close>, the position \<^verbatim>\<open>oldpos\<close> taken before the
  last \<^verbatim>\<open>GetLine\<close>, and the file. \<^verbatim>\<open>fgetpos\<close> and \<^verbatim>\<open>fsetpos\<close> are taken to succeed.
\<close>

record rdb_state =
  rd_r :: int
  rd_line :: string
  rd_maybe_continued :: bool
  rd_oldpos :: "string list"
  rd_file :: "string list"

lemma GetLine_loop_length:
  "length (snd (snd (GetLine_loop fl line))) \<le> length fl"
  by (induction fl arbitrary: line) (simp_all add: Let_def le_SucI)

lemma GetLine_progress:
  assumes "GetLine fl = (0, linbuf, fl')"
  shows "length fl' < length fl"
proof (cases fl)
  case Nil
  with assms show ?thesis by (simp add: GetLine_def EOF_def)
next
  case (Cons buf rest)
  have "length (snd (snd (GetLine_loop (buf # rest) []))) \<le> length rest"
    using GetLine_loop_length [of rest] by (simp add: Let_def)
  moreover have "fl' = snd (snd (GetLine_loop fl []))"
    using assms by (simp add: GetLine_def split: prod.splits)
  ultimately show ?thesis using Cons by simp
qed

function ReadDBline_loop :: "string list \<Rightarrow> string \<Rightarrow> bool \<Rightarrow> rdb_state" where
  "ReadDBline_loop file line maybe_continued =
     (case GetLine file of
        (r, linbuf0, file') \<Rightarrow>
          if r \<noteq> 0 then
            \<lparr>rd_r = r, rd_line = line, rd_maybe_continued = maybe_continued, rd_oldpos = file, rd_file = file'\<rparr>
          else
            let pos = length (takeWhile (\<lambda>x. x \<noteq> CHR ''#'' \<and> x \<noteq> backslash) linbuf0);
                continued = (pos < length linbuf0 \<and> linbuf0 ! pos = backslash);
                comment = (pos < length linbuf0 \<and> linbuf0 ! pos \<noteq> backslash);
                linbuf1 = take pos linbuf0;
                leading_space = (linbuf1 \<noteq> [] \<and> hd linbuf1 = CHR '' '');
                trailing_space = (linbuf1 \<noteq> [] \<and> last linbuf1 = CHR '' '');
                linbuf = (if leading_space \<or> trailing_space then Trim linbuf1 else linbuf1)
            in
            if line = [] \<and> linbuf = [] then ReadDBline_loop file' line maybe_continued
            else if linbuf \<noteq> [] \<and> maybe_continued \<and> IsAssignment linbuf then
              \<lparr>rd_r = 0, rd_line = line, rd_maybe_continued = maybe_continued, rd_oldpos = file, rd_file = file\<rparr>
            else if linbuf = [] then
              (if continued \<or> comment then ReadDBline_loop file' line maybe_continued
               else \<lparr>rd_r = 0, rd_line = line, rd_maybe_continued = maybe_continued, rd_oldpos = file,
                      rd_file = file'\<rparr>)
            else
              let is_assignment = IsAssignment linbuf;
                  maybe_continued' = (maybe_continued \<or> (line = [] \<and> \<not> continued \<and> is_assignment));
                  unfinished = (continued \<or> maybe_continued');
                  linbuf' = (if maybe_continued' \<or> (trailing_space \<and> continued) then linbuf @ [CHR '' '']
                             else linbuf);
                  line' = (if leading_space \<and> line \<noteq> [] \<and> last line \<noteq> CHR '' '' then line @ [CHR '' '']
                           else line) @ linbuf'
              in if unfinished then ReadDBline_loop file' line' maybe_continued'
                 else \<lparr>rd_r = 0, rd_line = line', rd_maybe_continued = maybe_continued', rd_oldpos = file,
                        rd_file = file'\<rparr>)"
  by pat_completeness auto

termination
proof (relation "measure (\<lambda>(file, line, maybe_continued). length file)")
  show "wf (measure (\<lambda>(file, line, maybe_continued). length file))" by simp
qed (auto dest: GetLine_progress [OF sym])

declare ReadDBline_loop.simps [simp del]

text \<open>
  \<^verbatim>\<open>ReadDBline\<close> returns \<^verbatim>\<open>r\<close>, the line and the file. After a tentative
  continuation that ran into the end of the file it backs out to \<^verbatim>\<open>oldpos\<close>
  and returns 0, and it removes the tentative space from the end of the line.
\<close>

definition ReadDBline :: "string list \<Rightarrow> int \<times> string \<times> string list" where
  "ReadDBline file =
     (let st = ReadDBline_loop file [] False in
      if rd_maybe_continued st then
        (if rd_r st = EOF then 0 else rd_r st,
         if rd_line st \<noteq> [] \<and> last (rd_line st) = CHR '' '' then butlast (rd_line st) else rd_line st,
         if rd_r st = EOF then rd_oldpos st else rd_file st)
      else (rd_r st, rd_line st, rd_file st))"

text \<open>
  A call of \<^verbatim>\<open>ReadDBline\<close> that does not return \<^verbatim>\<open>EOF\<close> has consumed at least one
  string of the file, so a loop that calls it until \<^verbatim>\<open>EOF\<close> ends.
\<close>

lemma GetLine_status: "fst (GetLine fl) = 0 \<or> fst (GetLine fl) = EOF"
  by (simp add: GetLine_def split: prod.splits)

definition rdb_inv :: "nat \<Rightarrow> bool \<Rightarrow> rdb_state \<Rightarrow> bool" where
  "rdb_inv n mc st \<longleftrightarrow>
     (rd_r st = 0 \<or> rd_r st = EOF)
     \<and> length (rd_file st) \<le> n \<and> length (rd_oldpos st) \<le> n
     \<and> (\<not> mc \<longrightarrow> (rd_r st = 0 \<longrightarrow> length (rd_file st) < n)
                 \<and> (rd_maybe_continued st \<longrightarrow> length (rd_oldpos st) < n))"

lemma rdb_inv_mono: "rdb_inv k mc' st \<Longrightarrow> k < n \<Longrightarrow> rdb_inv n mc st"
  by (auto simp add: rdb_inv_def)

lemma rdb_inv_record:
  "rdb_inv n mc \<lparr>rd_r = 0, rd_line = l, rd_maybe_continued = m, rd_oldpos = old, rd_file = f\<rparr>
     \<longleftrightarrow> length f \<le> n \<and> length old \<le> n \<and> (\<not> mc \<longrightarrow> length f < n \<and> (m \<longrightarrow> length old < n))"
  by (simp add: rdb_inv_def)

lemma ReadDBline_loop_inv: "rdb_inv (length fl) mc (ReadDBline_loop fl line mc)"
proof (induction "length fl" arbitrary: fl line mc rule: less_induct)
  case less
  obtain r linbuf0 fl' where g: "GetLine fl = (r, linbuf0, fl')" by (cases "GetLine fl") auto
  show ?case
  proof (cases "r = 0")
    case False
    with GetLine_status [of fl] g have r: "r = EOF" by simp
    have "length fl' \<le> length fl"
      using GetLine_loop_length [of fl "[]"] g by (simp add: GetLine_def split: prod.splits)
    then show ?thesis
      using False r by (subst ReadDBline_loop.simps) (simp add: g rdb_inv_def EOF_def)
  next
    case True
    with g have lt: "length fl' < length fl" by (auto dest: GetLine_progress)
    have rec: "\<And>l m. rdb_inv (length fl) mc (ReadDBline_loop fl' l m)"
      using less [OF lt] lt by (rule rdb_inv_mono)
    define pos where "pos = length (takeWhile (\<lambda>x. x \<noteq> CHR ''#'' \<and> x \<noteq> backslash) linbuf0)"
    define continued where "continued = (pos < length linbuf0 \<and> linbuf0 ! pos = backslash)"
    define comment where "comment = (pos < length linbuf0 \<and> linbuf0 ! pos \<noteq> backslash)"
    define linbuf1 where "linbuf1 = take pos linbuf0"
    define leading_space where "leading_space = (linbuf1 \<noteq> [] \<and> hd linbuf1 = CHR '' '')"
    define trailing_space where "trailing_space = (linbuf1 \<noteq> [] \<and> last linbuf1 = CHR '' '')"
    define linbuf where "linbuf = (if leading_space \<or> trailing_space then Trim linbuf1 else linbuf1)"
    define mc' where "mc' = (mc \<or> (line = [] \<and> \<not> continued \<and> IsAssignment linbuf))"
    define linbuf' where "linbuf' = (if mc' \<or> (trailing_space \<and> continued) then linbuf @ [CHR '' ''] else linbuf)"
    define line' where "line' = (if leading_space \<and> line \<noteq> [] \<and> last line \<noteq> CHR '' '' then line @ [CHR '' '']
                           else line) @ linbuf'"
    have eq: "ReadDBline_loop fl line mc =
       (if line = [] \<and> linbuf = [] then ReadDBline_loop fl' line mc
        else if linbuf \<noteq> [] \<and> mc \<and> IsAssignment linbuf then
          \<lparr>rd_r = 0, rd_line = line, rd_maybe_continued = mc, rd_oldpos = fl, rd_file = fl\<rparr>
        else if linbuf = [] then
          (if continued \<or> comment then ReadDBline_loop fl' line mc
           else \<lparr>rd_r = 0, rd_line = line, rd_maybe_continued = mc, rd_oldpos = fl, rd_file = fl'\<rparr>)
        else if continued \<or> mc' then ReadDBline_loop fl' line' mc'
        else \<lparr>rd_r = 0, rd_line = line', rd_maybe_continued = mc', rd_oldpos = fl, rd_file = fl'\<rparr>)"
      unfolding line'_def linbuf'_def mc'_def linbuf_def trailing_space_def leading_space_def linbuf1_def
        comment_def continued_def pos_def
      using True g by (subst ReadDBline_loop.simps) (simp only: prod.case Let_def if_False simp_thms)
    show ?thesis
      unfolding eq using lt by (simp add: rec rdb_inv_record)
  qed
qed

lemma ReadDBline_status: "fst (ReadDBline fl) = 0 \<or> fst (ReadDBline fl) = EOF"
  using ReadDBline_loop_inv [of fl False "[]"] by (auto simp add: ReadDBline_def Let_def rdb_inv_def)


subsection \<open>LoadDBvalue\<close>






subsection \<open>The precedence rule in the spec's words\<close>

text \<open>
  \<open>date_tags\<close> lists, in scan order, the date tags that \<^verbatim>\<open>SeekDBdate\<close> can see
  from a position on, each with the position of its line. \<open>qualifying\<close> keeps
  the entries whose tag-date is at most the requested date and at least the
  previously accepted tag-date. \<open>last_max date es q\<close> says that \<open>q\<close> is an
  entry of \<open>es\<close> with the latest tag-date among those not after \<open>date\<close>, and
  the last such entry in scan order.

  With \<^verbatim>\<open>end_on_tag\<close> the search of \<^verbatim>\<open>SeekDBdate\<close> ends at the first tag that
  is not a qualifying date tag; \<open>seek_prefix\<close> is the part of the file before
  that tag, and \<open>search_range\<close> the part of the file that the search covers.
\<close>

definition tag_at :: "scan6 \<Rightarrow> 'd mkdate \<Rightarrow> string \<Rightarrow> 'd option" where
  "tag_at scan mk buf =
     (if length buf < 2 \<or> hd buf = CHR ''#'' then None else IsDBdate scan mk (chomp buf))"

fun date_tags :: "scan6 \<Rightarrow> 'd mkdate \<Rightarrow> string list \<Rightarrow> nat \<Rightarrow> (nat \<times> 'd) list" where
  "date_tags scan mk [] p = []"
| "date_tags scan mk (buf # rest) p =
     (case tag_at scan mk buf of
        None \<Rightarrow> date_tags scan mk rest (Suc p)
      | Some t \<Rightarrow> (p, t) # date_tags scan mk rest (Suc p))"


















section \<open>Proofs about PipeliningModule\<close>

subsection \<open>The scan of one word\<close>

lemma and_1_cases: "(w :: u32) AND 1 = 0 \<or> w AND 1 = 1"
  by (simp add: and_one_eq mod_2_eq_odd)

lemma split_word_tagged:
  "drop_bit 31 d AND 1 = 1 \<Longrightarrow>
   split_word (m, l) d =
     (let t = drop_bit 27 d AND 0xF; m1 = m\<lparr>data_type_def := t\<rparr> in
      if t = 0 then split_case0 1 d (m1, l)
      else if t = 1 then split_case1 d (m1, l)
      else if t = 2 then split_case2 d (m1, l)
      else split_default d (m1, l))"
  by (simp add: split_word_def Let_def)

lemma split_word_untagged:
  "drop_bit 31 d AND 1 = 0 \<Longrightarrow>
   split_word (m, l) d =
     (if data_type_def m = 0 then split_case0 0 d (m, l)
      else if data_type_def m = 1 then split_case1 d (m, l)
      else if data_type_def m = 2 then split_case2 d (m, l)
      else split_default d (m, l))"
  by (simp add: split_word_def Let_def)

lemma split_word_data_def:
  assumes "is_data_def d"
  shows "split_word (m, l) d = split_default d (m\<lparr>data_type_def := drop_bit 27 d AND 0xF\<rparr>, l)"
proof -
  from assms have t: "drop_bit 31 d AND 1 = 1" and g: "2 < drop_bit 27 d AND 0xF"
    by (simp_all add: is_data_def_def)
  from g have "drop_bit 27 d AND 0xF \<noteq> 0" "drop_bit 27 d AND 0xF \<noteq> 1" "drop_bit 27 d AND 0xF \<noteq> 2"
    by auto
  then show ?thesis by (simp add: split_word_tagged [OF t] Let_def)
qed

lemma split_word_continuation:
  assumes "is_untagged d" and "2 < data_type_def m"
  shows "split_word (m, l) d = split_default d (m, l)"
proof -
  from assms(2) have "data_type_def m \<noteq> 0" "data_type_def m \<noteq> 1" "data_type_def m \<noteq> 2"
    by auto
  then show ?thesis using assms(1) by (simp add: split_word_untagged is_untagged_def)
qed

lemma split_word_block_header:
  "is_block_header d \<Longrightarrow> split_word (m, l) d = split_case0 1 d (m\<lparr>data_type_def := 0\<rparr>, l)"
  by (simp add: is_block_header_def split_word_tagged Let_def)

lemma split_word_block_trailer:
  "is_block_trailer d \<Longrightarrow> split_word (m, l) d = split_case1 d (m\<lparr>data_type_def := 1\<rparr>, l)"
  by (simp add: is_block_trailer_def split_word_tagged Let_def)

lemma split_word_event_header:
  "is_event_header d \<Longrightarrow> split_word (m, l) d = split_case2 d (m\<lparr>data_type_def := 2\<rparr>, l)"
  by (simp add: is_event_header_def split_word_tagged Let_def)

lemma split_default_append:
  "fMultiBlockMode m \<Longrightarrow> slot_blk_hdr l = fSlot m \<Longrightarrow> slot_evt_hdr l = slot_blk_hdr l \<Longrightarrow>
   split_default d (m, l) = (m, l\<lparr>oneEventBuffer := oneEventBuffer l @ [d]\<rparr>)"
  by (simp add: split_default_def)

lemma scan_scenario:
  assumes d1: "is_data_def d1" and d3: "is_data_def d3" and d2: "is_untagged d2 \<or> is_data_def d2"
  shows "eventblock (fst (split_scan ((PipeliningModule_new 3)\<lparr>eventblock := [], fBlockIsDone := False\<rparr>) [0x80C00002, 0x90C00000, d1, d2, 0x90C00001, d3, 0x88C00007]))
     = [[0x80C00002, 0x90C00000, d1, d2], [0x80C00002, 0x90C00001, d3, 0x88C00007]]"
proof -
  from d1 have g1: "2 < drop_bit 27 d1 AND 0xF" by (simp add: is_data_def_def)
  have bh: "is_block_header 0x80C00002" by (simp add: is_block_header_def)
  have eh0: "is_event_header 0x90C00000" by (simp add: is_event_header_def)
  have eh1: "is_event_header 0x90C00001" by (simp add: is_event_header_def)
  have bt: "is_block_trailer 0x88C00007" by (simp add: is_block_trailer_def)
  note cls = split_word_block_header [OF bh] split_word_event_header [OF eh0]
    split_word_event_header [OF eh1] split_word_block_trailer [OF bt]
    split_word_data_def [OF d1] split_word_data_def [OF d3]
  from d2 show ?thesis
  proof
    assume u: "is_untagged d2"
    show ?thesis
      by (simp add: split_scan_def PipeliningModule_new_def ReStart_def split_locals_init_def
          cls split_word_continuation [OF u] g1 split_default_append
          split_case0_def split_case1_def split_case2_def Let_def)
  next
    assume t: "is_data_def d2"
    show ?thesis
      by (simp add: split_scan_def PipeliningModule_new_def ReStart_def split_locals_init_def
          cls split_word_data_def [OF t] split_default_append
          split_case0_def split_case1_def split_case2_def Let_def)
  qed
qed

subsection \<open>What the scan leaves untouched\<close>

lemma split_case0_untagged: "split_case0 0 d (m, l) = (m, l)"
  by (simp add: split_case0_def)

lemma frame_case0: "scan_frame m (fst (split_case0 i d (m\<lparr>data_type_def := t\<rparr>, l)))"
  by (simp add: split_case0_def scan_frame_def Let_def)

lemma frame_case1: "scan_frame m (fst (split_case1 d (m\<lparr>data_type_def := t\<rparr>, l)))"
  by (simp add: split_case1_def scan_frame_def Let_def)

lemma frame_case2: "scan_frame m (fst (split_case2 d (m\<lparr>data_type_def := t\<rparr>, l)))"
  by (simp add: split_case2_def scan_frame_def Let_def split: prod.splits)

lemma frame_default: "scan_frame m (fst (split_default d (m\<lparr>data_type_def := t\<rparr>, l)))"
  by (simp add: split_default_def scan_frame_def Let_def)

lemma frame_word: "scan_frame m (fst (split_word (m, l) d))"
proof -
  consider "drop_bit 31 d AND 1 = 0" | "drop_bit 31 d AND 1 = 1"
    using and_1_cases by blast
  then show ?thesis
  proof cases
    case 1
    show ?thesis
      unfolding split_word_untagged [OF 1]
      using frame_case0 [of m 0 d "data_type_def m" l] frame_case1 [of m d "data_type_def m" l]
        frame_case2 [of m d "data_type_def m" l] frame_default [of m d "data_type_def m" l]
      by simp
  next
    case 2
    show ?thesis
      unfolding split_word_tagged [OF 2] Let_def
      using frame_case0 frame_case1 frame_case2 frame_default by simp
  qed
qed

lemma scan_frame_trans: "scan_frame a b \<Longrightarrow> scan_frame b c \<Longrightarrow> scan_frame a c"
  by (simp add: scan_frame_def)

lemma frame_foldl: "scan_frame (fst s) (fst (foldl split_word s ds))"
proof (induction ds arbitrary: s)
  case Nil
  show ?case by (simp add: scan_frame_def)
next
  case (Cons d ds)
  obtain m l where s: "s = (m, l)" by (cases s)
  have "scan_frame m (fst (split_word (m, l) d))" by (rule frame_word)
  moreover have "scan_frame (fst (split_word (m, l) d)) (fst (foldl split_word (split_word (m, l) d) ds))"
    by (rule Cons.IH)
  ultimately show ?case using s by (auto intro: scan_frame_trans)
qed

lemma frame_scan: "scan_frame m (fst (split_scan m ds))"
proof -
  have "scan_frame (m\<lparr>block_size := 0\<rparr>) (fst (split_scan m ds))"
    unfolding split_scan_def using frame_foldl [of "(m\<lparr>block_size := 0\<rparr>, split_locals_init)" ds] by simp
  then show ?thesis by (simp add: scan_frame_def)
qed

subsection \<open>Scanning while the multiblock flag stays off\<close>

lemma legacy_case0:
  "\<not> fMultiBlockMode m \<Longrightarrow> d AND 0xFF \<le> 1 \<Longrightarrow>
   \<not> fMultiBlockMode (fst (split_case0 i d (m\<lparr>data_type_def := t\<rparr>, l)))
   \<and> eventblock (fst (split_case0 i d (m\<lparr>data_type_def := t\<rparr>, l))) = eventblock m"
  using leD [of "d AND 0xFF" 1] by (simp add: split_case0_def Let_def)

lemma legacy_case1:
  "\<not> fMultiBlockMode m \<Longrightarrow>
   \<not> fMultiBlockMode (fst (split_case1 d (m\<lparr>data_type_def := t\<rparr>, l)))
   \<and> eventblock (fst (split_case1 d (m\<lparr>data_type_def := t\<rparr>, l))) = eventblock m"
  by (simp add: split_case1_def Let_def)

lemma legacy_case2:
  "\<not> fMultiBlockMode m \<Longrightarrow>
   \<not> fMultiBlockMode (fst (split_case2 d (m\<lparr>data_type_def := t\<rparr>, l)))
   \<and> eventblock (fst (split_case2 d (m\<lparr>data_type_def := t\<rparr>, l))) = eventblock m"
  by (simp add: split_case2_def Let_def)

lemma legacy_default:
  "\<not> fMultiBlockMode m \<Longrightarrow>
   \<not> fMultiBlockMode (fst (split_default d (m\<lparr>data_type_def := t\<rparr>, l)))
   \<and> eventblock (fst (split_default d (m\<lparr>data_type_def := t\<rparr>, l))) = eventblock m"
  by (simp add: split_default_def Let_def)

lemma legacy_word:
  assumes off: "\<not> fMultiBlockMode m" and small: "is_block_header d \<longrightarrow> declared_block_size d \<le> 1"
  shows "\<not> fMultiBlockMode (fst (split_word (m, l) d)) \<and> eventblock (fst (split_word (m, l) d)) = eventblock m"
proof -
  consider "drop_bit 31 d AND 1 = 0" | "drop_bit 31 d AND 1 = 1"
    using and_1_cases by blast
  then show ?thesis
  proof cases
    case 1
    show ?thesis
      unfolding split_word_untagged [OF 1]
      using off legacy_case1 [of m d "data_type_def m" l]
        legacy_case2 [of m d "data_type_def m" l] legacy_default [of m d "data_type_def m" l]
      by (simp add: split_case0_untagged)
  next
    case 2
    show ?thesis
    proof (cases "drop_bit 27 d AND 0xF = 0")
      case True
      with 2 small have "d AND 0xFF \<le> 1"
        by (simp add: is_block_header_def declared_block_size_def)
      with off True show ?thesis
        unfolding split_word_tagged [OF 2] Let_def using legacy_case0 by simp
    next
      case False
      with off show ?thesis
        unfolding split_word_tagged [OF 2] Let_def
        using legacy_case1 legacy_case2 legacy_default by simp
    qed
  qed
qed

lemma legacy_foldl:
  assumes "\<forall>w\<in>set ds. is_block_header w \<longrightarrow> declared_block_size w \<le> 1" and "\<not> fMultiBlockMode (fst s)"
  shows "\<not> fMultiBlockMode (fst (foldl split_word s ds))
     \<and> eventblock (fst (foldl split_word s ds)) = eventblock (fst s)"
  using assms
proof (induction ds arbitrary: s)
  case Nil
  then show ?case by simp
next
  case (Cons d ds)
  obtain m l where s: "s = (m, l)" by (cases s)
  have step: "\<not> fMultiBlockMode (fst (split_word (m, l) d)) \<and> eventblock (fst (split_word (m, l) d)) = eventblock m"
    using Cons.prems s by (intro legacy_word) simp_all
  have "\<not> fMultiBlockMode (fst (foldl split_word (split_word (m, l) d) ds))
     \<and> eventblock (fst (foldl split_word (split_word (m, l) d) ds)) = eventblock (fst (split_word (m, l) d))"
    using Cons.prems step by (intro Cons.IH) simp_all
  with step s show ?case by simp
qed

text \<open>
  Claim C2. A module that is not in multiblock mode receives a buffer in which
  every block header (bit 31 set, type field 0) declares a block size of at
  most 1. Then \<^verbatim>\<open>SplitBuffer\<close> returns 1, the accumulator holds exactly one
  sub-buffer, and that sub-buffer is the input buffer word for word; the module
  stays out of multiblock mode and \<^verbatim>\<open>GetNextBlock\<close> hands the buffer back.
\<close>

theorem C2_single_block_passthrough:
  assumes "\<not> fMultiBlockMode m"
    and "\<forall>w\<in>set codabuffer. is_block_header w \<longrightarrow> declared_block_size w \<le> 1"
  shows "fst (SplitBuffer m codabuffer) = Inr 1
     \<and> eventblock (snd (SplitBuffer m codabuffer)) = [codabuffer]
     \<and> \<not> IsMultiBlockMode (snd (SplitBuffer m codabuffer))
     \<and> fst (GetNextBlock (snd (SplitBuffer m codabuffer))) = codabuffer"
proof -
  define m0 where "m0 = m\<lparr>eventblock := [], fBlockIsDone := False\<rparr>"
  obtain m1 l where scan: "split_scan m0 codabuffer = (m1, l)" by (cases "split_scan m0 codabuffer")
  have "\<not> fMultiBlockMode (fst (foldl split_word (m0\<lparr>block_size := 0\<rparr>, split_locals_init) codabuffer))
     \<and> eventblock (fst (foldl split_word (m0\<lparr>block_size := 0\<rparr>, split_locals_init) codabuffer))
        = eventblock (fst (m0\<lparr>block_size := 0\<rparr>, split_locals_init))"
    using assms by (intro legacy_foldl) (simp_all add: m0_def)
  with scan have m1: "\<not> fMultiBlockMode m1" "eventblock m1 = []"
    by (simp_all add: split_scan_def m0_def)
  show ?thesis
    using assms(1) m1 scan
    by (simp add: SplitBuffer_def m0_def [symmetric] Let_def IsMultiBlockMode_def GetNextBlock_def)
      (simp add: m0_def)
qed

theorem C2_single_block_passthrough_witness:
  "(let m = PipeliningModule_new 3; buf = [0x80C00001, 0x90C00000, 0x98000011, 0x22, 0x88C00005]
    in \<not> fMultiBlockMode m \<and> is_block_header 0x80C00001 \<and> declared_block_size 0x80C00001 \<le> 1
     \<and> fst (SplitBuffer m buf) = Inr 1
     \<and> eventblock (snd (SplitBuffer m buf)) = [buf]
     \<and> fst (GetNextBlock (snd (SplitBuffer m buf))) = buf)"
proof -
  define m where "m = PipeliningModule_new 3"
  define buf :: "u32 list" where "buf = [0x80C00001, 0x90C00000, 0x98000011, 0x22, 0x88C00005]"
  have off: "\<not> fMultiBlockMode m" by (simp add: m_def PipeliningModule_new_def ReStart_def)
  have hdr: "is_block_header 0x80C00001" "declared_block_size 0x80C00001 \<le> 1"
    by (simp_all add: is_block_header_def declared_block_size_def)
  have small: "\<forall>w\<in>set buf. is_block_header w \<longrightarrow> declared_block_size w \<le> 1"
    by (simp add: buf_def is_block_header_def declared_block_size_def)
  show ?thesis
    using C2_single_block_passthrough [OF off small] off hdr
    by (simp add: m_def [symmetric] buf_def [symmetric] Let_def)
qed

subsection \<open>Iterating over the sub-buffers\<close>

lemma index_succ:
  fixes x :: u32
  assumes "unat x < n" and "n < 2 ^ 32"
  shows "x + 1 \<noteq> 0" and "unat (x + 1) = Suc (unat x)"
proof -
  have "unat x + unat (1 :: u32) < 2 ^ LENGTH(32)" using assms by simp
  then have "unat (x + 1) = unat x + unat (1 :: u32)" by (simp only: unat_add_lem [THEN iffD1])
  then show u: "unat (x + 1) = Suc (unat x)" by simp
  show "x + 1 \<noteq> 0"
  proof
    assume "x + 1 = 0"
    then have "unat (x + 1) = 0" by simp
    with u show False by simp
  qed
qed

lemma GetNextBlock_multi:
  assumes multi: "fMultiBlockMode m" and i: "unat (index_buffer m) < length (eventblock m)"
    and len: "length (eventblock m) < 2 ^ 32"
  shows "GetNextBlock m =
     (eventblock m ! unat (index_buffer m),
      m\<lparr>fBlockIsDone := (fBlockIsDone m \<or> Suc (unat (index_buffer m)) = length (eventblock m)),
        index_buffer := index_buffer m + 1\<rparr>)"
proof -
  from i have ne: "eventblock m \<noteq> []" by auto
  have nz: "0 < index_buffer m + 1"
    using index_succ(1) [OF i len] by (simp add: word_neq_0_conv)
  have eq: "(unat (index_buffer m) = length (eventblock m) - 1) = (Suc (unat (index_buffer m)) = length (eventblock m))"
    using i by auto
  show ?thesis
    using multi ne nz i
    by (cases "Suc (unat (index_buffer m)) = length (eventblock m)")
      (simp_all add: GetNextBlock_def GetIndex_def IsMultiBlockMode_def Let_def eq)
qed

lemma drain_take:
  assumes "fMultiBlockMode m" and "length (eventblock m) < 2 ^ 32"
    and "unat (index_buffer m) + k \<le> length (eventblock m)"
  shows "fst (drain k m) = take k (drop (unat (index_buffer m)) (eventblock m))
     \<and> eventblock (snd (drain k m)) = eventblock m
     \<and> unat (index_buffer (snd (drain k m))) = unat (index_buffer m) + k
     \<and> (fBlockIsDone (snd (drain k m)) \<longleftrightarrow>
          fBlockIsDone m \<or> (0 < k \<and> unat (index_buffer m) + k = length (eventblock m)))"
  using assms
proof (induction k arbitrary: m)
  case 0
  then show ?case by simp
next
  case (Suc k)
  from Suc.prems have i: "unat (index_buffer m) < length (eventblock m)" by simp
  define m1 where "m1 = m\<lparr>fBlockIsDone := (fBlockIsDone m \<or> Suc (unat (index_buffer m)) = length (eventblock m)),
        index_buffer := index_buffer m + 1\<rparr>"
  have step: "GetNextBlock m = (eventblock m ! unat (index_buffer m), m1)"
    unfolding m1_def by (rule GetNextBlock_multi [OF Suc.prems(1) i Suc.prems(2)])
  have u1: "unat (index_buffer m1) = Suc (unat (index_buffer m))"
    using index_succ(2) [OF i Suc.prems(2)] by (simp add: m1_def)
  have IH: "fst (drain k m1) = take k (drop (unat (index_buffer m1)) (eventblock m1))
     \<and> eventblock (snd (drain k m1)) = eventblock m1
     \<and> unat (index_buffer (snd (drain k m1))) = unat (index_buffer m1) + k
     \<and> (fBlockIsDone (snd (drain k m1)) \<longleftrightarrow>
          fBlockIsDone m1 \<or> (0 < k \<and> unat (index_buffer m1) + k = length (eventblock m1)))"
    using Suc.prems u1 by (intro Suc.IH) (simp_all add: m1_def)
  have e1: "eventblock m1 = eventblock m" and d1: "fBlockIsDone m1 = (fBlockIsDone m \<or> Suc (unat (index_buffer m)) = length (eventblock m))"
    by (simp_all add: m1_def)
  have hd: "eventblock m ! unat (index_buffer m) # take k (drop (Suc (unat (index_buffer m))) (eventblock m))
      = take (Suc k) (drop (unat (index_buffer m)) (eventblock m))"
    using i by (simp add: Cons_nth_drop_Suc [symmetric])
  have unf: "drain (Suc k) m = (eventblock m ! unat (index_buffer m) # fst (drain k m1), snd (drain k m1))"
    by (simp add: step split: prod.splits)
  have fin: "(Suc (unat (index_buffer m)) = length (eventblock m) \<or> 0 < k \<and> Suc (unat (index_buffer m)) + k = length (eventblock m))
      = (unat (index_buffer m) + Suc k = length (eventblock m))"
    using Suc.prems(3) by auto
  show ?case
    unfolding unf using IH hd fin by (simp add: u1 e1 d1)
qed

lemma PrintBlocks_loop_empty:
  "eventblock m = [] \<Longrightarrow> \<not> fBlockIsDone m \<Longrightarrow>
   fst (PrintBlocks_loop icnt m) = Inl RuntimeError_infinite_loop_PrintBlocks"
proof (induction icnt m rule: PrintBlocks_loop.induct)
  case (1 icnt m)
  show ?case
  proof (cases "icnt > maxloops")
    case True
    with "1.prems" show ?thesis by (subst PrintBlocks_loop.simps) (simp add: BlockIsDone_def)
  next
    case False
    have nxt: "snd (GetNextBlock m) = m\<lparr>pm_cerr := pm_cerr m @ [NoEventBuffers]\<rparr>"
      using "1.prems" by (simp add: GetNextBlock_def)
    have "fst (PrintBlocks_loop (icnt + 1) (snd (GetNextBlock m))) = Inl RuntimeError_infinite_loop_PrintBlocks"
      using False "1.prems" by (intro "1.IH") (simp_all add: BlockIsDone_def nxt)
    with False "1.prems" show ?thesis
      by (subst PrintBlocks_loop.simps) (simp add: BlockIsDone_def)
  qed
qed

lemma PrintBlocks_loop_nonempty:
  assumes "fMultiBlockMode m" and "\<not> fBlockIsDone m"
    and "unat (index_buffer m) < length (eventblock m)"
    and "icnt + (length (eventblock m) - unat (index_buffer m)) \<le> maxloops + 1"
    and "length (eventblock m) < 2 ^ 32"
  shows "fst (PrintBlocks_loop icnt m) = Inr () \<and> ReStart (snd (PrintBlocks_loop icnt m)) = ReStart m"
  using assms
proof (induction k \<equiv> "length (eventblock m) - unat (index_buffer m)" arbitrary: m icnt)
  case 0
  then show ?case by simp
next
  case (Suc k)
  have i: "unat (index_buffer m) < length (eventblock m)" by (rule Suc.prems(3))
  define m1 where "m1 = m\<lparr>fBlockIsDone := (fBlockIsDone m \<or> Suc (unat (index_buffer m)) = length (eventblock m)),
        index_buffer := index_buffer m + 1\<rparr>"
  have step: "GetNextBlock m = (eventblock m ! unat (index_buffer m), m1)"
    unfolding m1_def by (rule GetNextBlock_multi [OF Suc.prems(1) i Suc.prems(5)])
  have u1: "unat (index_buffer m1) = Suc (unat (index_buffer m))"
    using index_succ(2) [OF i Suc.prems(5)] by (simp add: m1_def)
  have r1: "ReStart m1 = ReStart m" by (simp add: m1_def ReStart_def)
  have small: "\<not> icnt > maxloops" using Suc.prems(4) i by simp
  have unfold: "PrintBlocks_loop icnt m = PrintBlocks_loop (icnt + 1) m1"
    using Suc.prems(2) small by (subst PrintBlocks_loop.simps) (simp add: BlockIsDone_def step)
  show ?case
  proof (cases "Suc (unat (index_buffer m)) = length (eventblock m)")
    case True
    then have "fBlockIsDone m1" by (simp add: m1_def)
    then have "PrintBlocks_loop (icnt + 1) m1 = (Inr (), m1)"
      by (subst PrintBlocks_loop.simps) (simp add: BlockIsDone_def)
    with unfold r1 show ?thesis by simp
  next
    case False
    have "fst (PrintBlocks_loop (icnt + 1) m1) = Inr () \<and> ReStart (snd (PrintBlocks_loop (icnt + 1) m1)) = ReStart m1"
      using Suc.prems Suc.hyps(2) False u1 i
      by (intro Suc.hyps(1)) (simp_all add: m1_def)
    with unfold r1 show ?thesis by simp
  qed
qed

lemma PrintBlocks_nonempty:
  assumes "fMultiBlockMode m" and "eventblock m \<noteq> []" and "length (eventblock m) \<le> maxloops"
  shows "PrintBlocks m = (Inr (), ReStart m)"
proof -
  obtain r m' where pl: "PrintBlocks_loop 0 (ReStart m) = (r, m')"
    by (cases "PrintBlocks_loop 0 (ReStart m)")
  have len: "length (eventblock m) < 2 ^ 32" using assms(3) by (simp add: maxloops_def)
  have "fst (PrintBlocks_loop 0 (ReStart m)) = Inr ()
      \<and> ReStart (snd (PrintBlocks_loop 0 (ReStart m))) = ReStart (ReStart m)"
    using assms len by (intro PrintBlocks_loop_nonempty) (simp_all add: ReStart_def)
  with pl have "r = Inr ()" and "ReStart m' = ReStart m"
    by (simp_all add: ReStart_def)
  with pl assms(1) show ?thesis
    by (simp add: PrintBlocks_def IsMultiBlockMode_def)
qed

lemma PrintBlocks_empty:
  assumes "fMultiBlockMode m" and "eventblock m = []"
  shows "fst (PrintBlocks m) = Inl RuntimeError_infinite_loop_PrintBlocks"
proof -
  obtain r m' where pl: "PrintBlocks_loop 0 (ReStart m) = (r, m')"
    by (cases "PrintBlocks_loop 0 (ReStart m)")
  have "fst (PrintBlocks_loop 0 (ReStart m)) = Inl RuntimeError_infinite_loop_PrintBlocks"
    using assms by (intro PrintBlocks_loop_empty) (simp_all add: ReStart_def)
  with pl have "r = Inl RuntimeError_infinite_loop_PrintBlocks" by simp
  with pl assms(1) show ?thesis
    by (simp add: PrintBlocks_def IsMultiBlockMode_def)
qed

subsection \<open>Growth of the accumulator and the multiblock flag\<close>

lemma grow_case0: "length (eventblock (fst (split_case0 i d (m\<lparr>data_type_def := t\<rparr>, l)))) \<le> Suc (length (eventblock m))"
  by (simp add: split_case0_def Let_def)

lemma grow_case1: "length (eventblock (fst (split_case1 d (m\<lparr>data_type_def := t\<rparr>, l)))) \<le> Suc (length (eventblock m))"
  by (simp add: split_case1_def Let_def)

lemma grow_case2: "length (eventblock (fst (split_case2 d (m\<lparr>data_type_def := t\<rparr>, l)))) \<le> Suc (length (eventblock m))"
  by (simp add: split_case2_def Let_def split: prod.splits)

lemma grow_default: "length (eventblock (fst (split_default d (m\<lparr>data_type_def := t\<rparr>, l)))) \<le> Suc (length (eventblock m))"
  by (simp add: split_default_def Let_def)

lemma grow_word: "length (eventblock (fst (split_word (m, l) d))) \<le> Suc (length (eventblock m))"
proof -
  consider "drop_bit 31 d AND 1 = 0" | "drop_bit 31 d AND 1 = 1"
    using and_1_cases by blast
  then show ?thesis
  proof cases
    case 1
    show ?thesis
      unfolding split_word_untagged [OF 1]
      using grow_case1 [where m = m and t = "data_type_def m"]
        grow_case2 [where m = m and t = "data_type_def m"] grow_default [where m = m and t = "data_type_def m"]
      by (simp add: split_case0_untagged)
  next
    case 2
    show ?thesis
      unfolding split_word_tagged [OF 2] Let_def
      using grow_case0 grow_case1 grow_case2 grow_default by simp
  qed
qed

lemma grow_foldl: "length (eventblock (fst (foldl split_word s ds))) \<le> length (eventblock (fst s)) + length ds"
proof (induction ds arbitrary: s)
  case Nil
  show ?case by simp
next
  case (Cons d ds)
  obtain m l where s: "s = (m, l)" by (cases s)
  have "length (eventblock (fst (foldl split_word (split_word (m, l) d) ds)))
      \<le> length (eventblock (fst (split_word (m, l) d))) + length ds"
    by (rule Cons.IH)
  with grow_word [of m l d] s show ?case by simp
qed

lemma grow_scan: "eventblock m = [] \<Longrightarrow> length (eventblock (fst (split_scan m ds))) \<le> length ds"
  using grow_foldl [of "(m\<lparr>block_size := 0\<rparr>, split_locals_init)" ds] by (simp add: split_scan_def)

lemma flag_foldl: "fMultiBlockMode (fst s) \<Longrightarrow> fMultiBlockMode (fst (foldl split_word s ds))"
  using frame_foldl [of s ds] by (simp add: scan_frame_def)

lemma flag_set_word:
  assumes "is_block_header d" and "1 < declared_block_size d"
  shows "fMultiBlockMode (fst (split_word (m, l) d))"
  using assms
  by (simp add: split_word_block_header split_case0_def Let_def declared_block_size_def)

lemma flag_set_foldl:
  assumes "\<exists>w\<in>set ds. is_block_header w \<and> 1 < declared_block_size w"
  shows "fMultiBlockMode (fst (foldl split_word s ds))"
  using assms
proof (induction ds arbitrary: s)
  case Nil
  then show ?case by simp
next
  case (Cons d ds)
  obtain m l where s: "s = (m, l)" by (cases s)
  show ?case
  proof (cases "is_block_header d \<and> 1 < declared_block_size d")
    case True
    then have "fMultiBlockMode (fst (split_word (m, l) d))" by (simp add: flag_set_word)
    then show ?thesis using s by (simp add: flag_foldl)
  next
    case False
    with Cons.prems have "\<exists>w\<in>set ds. is_block_header w \<and> 1 < declared_block_size w" by auto
    then show ?thesis using s by (simp add: Cons.IH)
  qed
qed

lemma GetNextBlock_flag: "fMultiBlockMode (snd (GetNextBlock m)) = fMultiBlockMode m"
  by (simp add: GetNextBlock_def GetIndex_def Let_def split: prod.splits)

lemma PrintBlocks_loop_flag: "fMultiBlockMode (snd (PrintBlocks_loop icnt m)) = fMultiBlockMode m"
proof (induction icnt m rule: PrintBlocks_loop.induct)
  case (1 icnt m)
  show ?case
  proof (cases "BlockIsDone m \<or> icnt > maxloops")
    case True
    then show ?thesis by (subst PrintBlocks_loop.simps) auto
  next
    case False
    then have "fMultiBlockMode (snd (PrintBlocks_loop (icnt + 1) (snd (GetNextBlock m)))) = fMultiBlockMode (snd (GetNextBlock m))"
      by (intro "1.IH") simp_all
    with False show ?thesis
      by (subst PrintBlocks_loop.simps) (simp add: GetNextBlock_flag)
  qed
qed

lemma PrintBlocks_flag: "fMultiBlockMode (snd (PrintBlocks m)) = fMultiBlockMode m"
proof -
  obtain r m' where pl: "PrintBlocks_loop 0 (ReStart m) = (r, m')"
    by (cases "PrintBlocks_loop 0 (ReStart m)")
  have "fMultiBlockMode (snd (PrintBlocks_loop 0 (ReStart m))) = fMultiBlockMode (ReStart m)"
    by (rule PrintBlocks_loop_flag)
  with pl have "fMultiBlockMode m' = fMultiBlockMode m" by (simp add: ReStart_def)
  with pl show ?thesis
    by (cases r) (simp_all add: PrintBlocks_def ReStart_def)
qed

subsection \<open>The two-event scenario\<close>

lemma scan_scenario_state:
  assumes d1: "is_data_def d1" and d3: "is_data_def d3" and d2: "is_untagged d2 \<or> is_data_def d2"
  shows "fMultiBlockMode (fst (split_scan ((PipeliningModule_new 3)\<lparr>eventblock := [], fBlockIsDone := False\<rparr>) [0x80C00002, 0x90C00000, d1, d2, 0x90C00001, d3, 0x88C00007]))
    \<and> block_size (fst (split_scan ((PipeliningModule_new 3)\<lparr>eventblock := [], fBlockIsDone := False\<rparr>) [0x80C00002, 0x90C00000, d1, d2, 0x90C00001, d3, 0x88C00007])) = 2
    \<and> pm_cerr (fst (split_scan ((PipeliningModule_new 3)\<lparr>eventblock := [], fBlockIsDone := False\<rparr>) [0x80C00002, 0x90C00000, d1, d2, 0x90C00001, d3, 0x88C00007])) = []"
proof -
  from d1 have g1: "2 < drop_bit 27 d1 AND 0xF" by (simp add: is_data_def_def)
  have bh: "is_block_header 0x80C00002" by (simp add: is_block_header_def)
  have eh0: "is_event_header 0x90C00000" by (simp add: is_event_header_def)
  have eh1: "is_event_header 0x90C00001" by (simp add: is_event_header_def)
  have bt: "is_block_trailer 0x88C00007" by (simp add: is_block_trailer_def)
  note cls = split_word_block_header [OF bh] split_word_event_header [OF eh0]
    split_word_event_header [OF eh1] split_word_block_trailer [OF bt]
    split_word_data_def [OF d1] split_word_data_def [OF d3]
  from d2 show ?thesis
  proof
    assume u: "is_untagged d2"
    show ?thesis
      by (simp add: split_scan_def PipeliningModule_new_def ReStart_def split_locals_init_def
          cls split_word_continuation [OF u] g1 split_default_append
          split_case0_def split_case1_def split_case2_def Let_def)
  next
    assume t: "is_data_def d2"
    show ?thesis
      by (simp add: split_scan_def PipeliningModule_new_def ReStart_def split_locals_init_def
          cls split_word_data_def [OF t] split_default_append
          split_case0_def split_case1_def split_case2_def Let_def)
  qed
qed

text \<open>
  Claim C1, as amended. A freshly constructed module for slot 3 receives
  BlockHeader(slot 3, size 2), EventHeader(slot 3, 0), D1, D2,
  EventHeader(slot 3, 1), D3, BlockTrailer(slot 3), where D1 and D3 are data
  words that carry a type tag of their own (bit 31 set, type field 3 to 15) and
  D2 is either such a word or an untagged continuation word. Then
  \<^verbatim>\<open>SplitBuffer\<close> returns 0 without a diagnostic, and \<^verbatim>\<open>GetNextBlock\<close> yields
  [BlockHeader, EventHeader0, D1, D2] and then
  [BlockHeader, EventHeader1, D3, BlockTrailer], with \<^verbatim>\<open>BlockIsDone\<close> false after
  the first and true after the second.
\<close>

theorem C1_scenario_tagged_data:
  assumes d1: "is_data_def d1" and d3: "is_data_def d3" and d2: "is_untagged d2 \<or> is_data_def d2"
  shows "let (r, m) = SplitBuffer (PipeliningModule_new 3)
                        [0x80C00002, 0x90C00000, d1, d2, 0x90C00001, d3, 0x88C00007];
             (b1, m1) = GetNextBlock m;
             (b2, m2) = GetNextBlock m1
         in r = Inr 0
          \<and> eventblock m = [[0x80C00002, 0x90C00000, d1, d2], [0x80C00002, 0x90C00001, d3, 0x88C00007]]
          \<and> pm_cerr m = []
          \<and> b1 = [0x80C00002, 0x90C00000, d1, d2] \<and> \<not> BlockIsDone m1
          \<and> b2 = [0x80C00002, 0x90C00001, d3, 0x88C00007] \<and> BlockIsDone m2"
proof -
  define buf where "buf = [0x80C00002, 0x90C00000, d1, d2, 0x90C00001, d3, 0x88C00007]"
  define m0 where "m0 = (PipeliningModule_new 3)\<lparr>eventblock := [], fBlockIsDone := False\<rparr>"
  obtain ms l where scan: "split_scan m0 buf = (ms, l)" by (cases "split_scan m0 buf")
  have eb: "eventblock ms = [[0x80C00002, 0x90C00000, d1, d2], [0x80C00002, 0x90C00001, d3, 0x88C00007]]"
    using scan_scenario [OF d1 d3 d2] scan by (simp add: m0_def buf_def)
  have st: "fMultiBlockMode ms" "block_size ms = 2" "pm_cerr ms = []"
    using scan_scenario_state [OF d1 d3 d2] scan by (simp_all add: m0_def buf_def)
  have fr: "fDebug ms = 0" "index_buffer ms = 0" "fBlockIsDone ms = False"
    using frame_scan [of m0 buf] scan
    by (simp_all add: scan_frame_def m0_def PipeliningModule_new_def ReStart_def)
  define m where "m = ms\<lparr>fFirstTime := False\<rparr>"
  have sb: "SplitBuffer (PipeliningModule_new 3) buf = (Inr 0, m)"
    using scan st eb fr
    by (simp add: SplitBuffer_def m0_def [symmetric] Let_def IsMultiBlockMode_def m_def)
      (simp add: m0_def PipeliningModule_new_def ReStart_def)
  have m: "fMultiBlockMode m" "index_buffer m = 0" "fBlockIsDone m = False" "pm_cerr m = []"
    "eventblock m = [[0x80C00002, 0x90C00000, d1, d2], [0x80C00002, 0x90C00001, d3, 0x88C00007]]"
    using st fr eb by (simp_all add: m_def)
  define m1 where "m1 = m\<lparr>fBlockIsDone := False, index_buffer := 1\<rparr>"
  have g1: "GetNextBlock m = ([0x80C00002, 0x90C00000, d1, d2], m1)"
    using GetNextBlock_multi [of m] m by (simp add: m1_def)
  have g2: "GetNextBlock m1 = ([0x80C00002, 0x90C00001, d3, 0x88C00007], m1\<lparr>fBlockIsDone := True, index_buffer := 2\<rparr>)"
    using GetNextBlock_multi [of m1] m by (simp add: m1_def)
  show ?thesis
    using sb g1 g2 m by (simp add: buf_def [symmetric] BlockIsDone_def m1_def)
qed

theorem C1_scenario_tagged_data_witness:
  "is_data_def 0x98000011 \<and> is_untagged 0x22 \<and> is_data_def 0x98000033
   \<and> (let (r, m) = SplitBuffer (PipeliningModule_new 3)
                        [0x80C00002, 0x90C00000, 0x98000011, 0x22, 0x90C00001, 0x98000033, 0x88C00007];
             (b1, m1) = GetNextBlock m;
             (b2, m2) = GetNextBlock m1
         in r = Inr 0
          \<and> b1 = [0x80C00002, 0x90C00000, 0x98000011, 0x22] \<and> \<not> BlockIsDone m1
          \<and> b2 = [0x80C00002, 0x90C00001, 0x98000033, 0x88C00007] \<and> BlockIsDone m2)"
proof -
  have h1: "is_data_def 0x98000011" and h3: "is_data_def 0x98000033" and h2: "is_untagged 0x22"
    by (simp_all add: is_data_def_def is_untagged_def)
  from h2 have h2': "is_untagged 0x22 \<or> is_data_def 0x22" by simp
  show ?thesis
    using C1_scenario_tagged_data [OF h1 h3 h2'] h1 h2 h3
    by (simp add: Let_def split: prod.splits)
qed

text \<open>
  Claim C1 as stated fails when D1, D2 and D3 are untagged (bit 31 clear). An
  untagged word keeps the type of the last tagged word, so a plain word that
  follows an event header is handled by the event-header case and opens a new
  sub-buffer: the scenario gives five sub-buffers, three of them without an
  event header, and the block-size mismatch is reported.
\<close>

theorem C1_untagged_data_counterexample:
  "is_untagged 0x11 \<and> is_untagged 0x22 \<and> is_untagged 0x33
   \<and> SplitBuffer (PipeliningModule_new 3) [0x80C00002, 0x90C00000, 0x11, 0x22, 0x90C00001, 0x33, 0x88C00007]
      = (Inr 0, (PipeliningModule_new 3)\<lparr>fMultiBlockMode := True, block_size := 2,
           fBlockHeader := 0x80C00002, data_type_def := 1, fFirstTime := False,
           eventblock := [[0x80C00002, 0x90C00000], [0x80C00002, 0x11], [0x80C00002, 0x22],
                          [0x80C00002, 0x90C00001], [0x80C00002, 0x33, 0x88C00007]],
           pm_cerr := [NumEventsInconsistent]\<rparr>)
   \<and> eventblock (snd (SplitBuffer (PipeliningModule_new 3) [0x80C00002, 0x90C00000, 0x11, 0x22, 0x90C00001, 0x33, 0x88C00007]))
      \<noteq> [[0x80C00002, 0x90C00000, 0x11, 0x22], [0x80C00002, 0x90C00001, 0x33, 0x88C00007]]"
  by (simp add: is_untagged_def SplitBuffer_def split_scan_def PipeliningModule_new_def ReStart_def
      IsMultiBlockMode_def split_word_def split_case0_def split_case1_def split_case2_def
      split_default_def split_locals_init_def Let_def)

lemma SplitBuffer_scanned:
  assumes "fFirstTime m \<or> fMultiBlockMode m"
    and "split_scan (m\<lparr>eventblock := [], fBlockIsDone := False\<rparr>) codabuffer = (m1, l)"
  shows "SplitBuffer m codabuffer =
     (let m2 = m1\<lparr>fFirstTime := False\<rparr> in
      if \<not> fMultiBlockMode m1 then (Inr 1, m2\<lparr>eventblock := eventblock m1 @ [codabuffer], index_buffer := 1\<rparr>)
      else
        let m3 = (if unat (block_size m1) \<noteq> length (eventblock m1)
                  then m2\<lparr>pm_cerr := pm_cerr m1 @ [NumEventsInconsistent]\<rparr> else m2)
        in if 1 \<le> fDebug m1
           then (case PrintBlocks m3 of (Inl e, m4) \<Rightarrow> (Inl e, m4) | (Inr u, m4) \<Rightarrow> (Inr 0, m4))
           else (Inr 0, m3))"
  using assms by (auto simp add: SplitBuffer_def Let_def IsMultiBlockMode_def)

lemma SplitBuffer_not_scanned:
  assumes "\<not> fFirstTime m" and "\<not> fMultiBlockMode m"
  shows "SplitBuffer m codabuffer =
     (Inr 1, m\<lparr>eventblock := [codabuffer], fBlockIsDone := False, index_buffer := 1\<rparr>)"
  using assms by (simp add: SplitBuffer_def Let_def IsMultiBlockMode_def)

text \<open>
  The behaviour of \<^verbatim>\<open>SplitBuffer\<close> in multiblock mode when the debug printing does
  not interfere: the debug level is below 1, or the scan produced at least one
  and at most \<open>maxloops\<close> sub-buffers. Then \<^verbatim>\<open>SplitBuffer\<close> returns 0 whether or
  not the number of sub-buffers equals the declared block size; a mismatch adds
  exactly one error message; the accumulator holds every sub-buffer the scan
  produced; and after \<^verbatim>\<open>ReStart\<close>, calling \<^verbatim>\<open>GetNextBlock\<close> once per sub-buffer
  returns them all, in order.
\<close>

lemma SplitBuffer_mismatch_best_effort:
  assumes scan: "split_scan (m\<lparr>eventblock := [], fBlockIsDone := False\<rparr>) codabuffer = (m1, l)"
    and scanned: "fFirstTime m \<or> fMultiBlockMode m"
    and multi: "IsMultiBlockMode m1"
    and quiet: "fDebug m < 1 \<or> (eventblock m1 \<noteq> [] \<and> length (eventblock m1) \<le> maxloops)"
    and len: "length codabuffer < 2 ^ 32"
  shows "fst (SplitBuffer m codabuffer) = Inr 0
     \<and> eventblock (snd (SplitBuffer m codabuffer)) = eventblock m1
     \<and> pm_cerr (snd (SplitBuffer m codabuffer))
         = pm_cerr m1 @ (if unat (block_size m1) \<noteq> length (eventblock m1) then [NumEventsInconsistent] else [])
     \<and> fst (drain (length (eventblock m1)) (ReStart (snd (SplitBuffer m codabuffer)))) = eventblock m1"
proof -
  define m0 where "m0 = m\<lparr>eventblock := [], fBlockIsDone := False\<rparr>"
  define m2 where "m2 = m1\<lparr>fFirstTime := False\<rparr>"
  define m3 where "m3 = (if unat (block_size m2) \<noteq> length (eventblock m2)
                    then m2\<lparr>pm_cerr := pm_cerr m2 @ [NumEventsInconsistent]\<rparr> else m2)"
  have scan0: "split_scan m0 codabuffer = (m1, l)" using scan by (simp add: m0_def)
  have dbg: "fDebug m1 = fDebug m"
    using frame_scan [of m0 codabuffer] scan0 by (simp add: scan_frame_def m0_def)
  have n32: "length (eventblock m1) < 2 ^ 32"
    using grow_scan [of m0 codabuffer] scan0 len by (simp add: m0_def)
  have m3: "fMultiBlockMode m3" "eventblock m3 = eventblock m1" "fDebug m3 = fDebug m"
    "pm_cerr m3 = pm_cerr m1 @ (if unat (block_size m1) \<noteq> length (eventblock m1) then [NumEventsInconsistent] else [])"
    using multi dbg by (simp_all add: m3_def m2_def IsMultiBlockMode_def)
  have sb: "SplitBuffer m codabuffer =
      (if 1 \<le> fDebug m3
       then (case PrintBlocks m3 of (Inl e, m4) \<Rightarrow> (Inl e, m4) | (Inr u, m4) \<Rightarrow> (Inr 0, m4))
       else (Inr 0, m3))"
    using SplitBuffer_scanned [OF scanned scan] multi
    by (simp add: Let_def IsMultiBlockMode_def m3_def m2_def)
  have res: "fst (SplitBuffer m codabuffer) = Inr 0 \<and> ReStart (snd (SplitBuffer m codabuffer)) = ReStart m3
      \<and> eventblock (snd (SplitBuffer m codabuffer)) = eventblock m1
      \<and> pm_cerr (snd (SplitBuffer m codabuffer)) = pm_cerr m3"
  proof (cases "1 \<le> fDebug m")
    case True
    with quiet have ne: "eventblock m3 \<noteq> []" and n: "length (eventblock m1) \<le> maxloops"
      by (simp_all add: m3)
    have "PrintBlocks m3 = (Inr (), ReStart m3)"
      using m3(1) ne n by (intro PrintBlocks_nonempty) (simp_all add: m3)
    with True show ?thesis by (simp add: sb m3 ReStart_def)
  next
    case False
    then show ?thesis by (simp add: sb m3)
  qed
  have "fst (drain (length (eventblock (ReStart m3))) (ReStart m3))
      = take (length (eventblock (ReStart m3))) (drop (unat (index_buffer (ReStart m3))) (eventblock (ReStart m3)))"
    using m3 n32 by (intro drain_take [THEN conjunct1]) (simp_all add: ReStart_def)
  then have "fst (drain (length (eventblock m1)) (ReStart m3)) = eventblock m1"
    by (simp add: ReStart_def m3)
  with res m3 show ?thesis by simp
qed

lemma SplitBuffer_mismatch_best_effort_example:
  "(let m = PipeliningModule_new 3;
        buf = [0x80C00002, 0x90C00000, 0x11, 0x22, 0x90C00001, 0x33, 0x88C00007];
        (m1, l) = split_scan (m\<lparr>eventblock := [], fBlockIsDone := False\<rparr>) buf
    in fFirstTime m \<and> IsMultiBlockMode m1 \<and> fDebug m < 1 \<and> length buf < 2 ^ 32
     \<and> unat (block_size m1) \<noteq> length (eventblock m1)
     \<and> fst (SplitBuffer m buf) = Inr 0
     \<and> pm_cerr (snd (SplitBuffer m buf)) = [NumEventsInconsistent]
     \<and> fst (drain 5 (ReStart (snd (SplitBuffer m buf))))
        = [[0x80C00002, 0x90C00000], [0x80C00002, 0x11], [0x80C00002, 0x22],
           [0x80C00002, 0x90C00001], [0x80C00002, 0x33, 0x88C00007]])"
proof -
  define m where "m = PipeliningModule_new 3"
  define buf :: "u32 list" where "buf = [0x80C00002, 0x90C00000, 0x11, 0x22, 0x90C00001, 0x33, 0x88C00007]"
  define m1 where "m1 = (PipeliningModule_new 3)\<lparr>fMultiBlockMode := True, block_size := 2,
           fBlockHeader := 0x80C00002, data_type_def := 1,
           eventblock := [[0x80C00002, 0x90C00000], [0x80C00002, 0x11], [0x80C00002, 0x22],
                          [0x80C00002, 0x90C00001], [0x80C00002, 0x33, 0x88C00007]]\<rparr>"
  define l where "l = \<lparr>oneEventBuffer = [], eventnum = 1, slot_blk_hdr = 3, slot_evt_hdr = 0, BlockStart = 7\<rparr>"
  have ev: "split_scan (m\<lparr>eventblock := [], fBlockIsDone := False\<rparr>) buf = (m1, l)"
    by (simp add: m_def buf_def m1_def l_def split_scan_def PipeliningModule_new_def ReStart_def
      split_word_def split_case0_def split_case1_def split_case2_def
      split_default_def split_locals_init_def Let_def)
  have h1: "fFirstTime m \<or> fMultiBlockMode m" by (simp add: m_def PipeliningModule_new_def ReStart_def)
  have h2: "IsMultiBlockMode m1" by (simp add: m1_def IsMultiBlockMode_def)
  have h3: "fDebug m < 1 \<or> (eventblock m1 \<noteq> [] \<and> length (eventblock m1) \<le> maxloops)"
    by (simp add: m_def PipeliningModule_new_def ReStart_def)
  have h4: "length buf < 2 ^ 32" by (simp add: buf_def)
  have facts: "fFirstTime m" "fDebug m < 1" "unat (block_size m1) \<noteq> length (eventblock m1)"
    "pm_cerr m1 = []" "length (eventblock m1) = 5"
    by (simp_all add: m_def m1_def PipeliningModule_new_def ReStart_def)
  have eb: "eventblock m1 = [[0x80C00002, 0x90C00000], [0x80C00002, 0x11], [0x80C00002, 0x22],
                          [0x80C00002, 0x90C00001], [0x80C00002, 0x33, 0x88C00007]]"
    by (simp add: m1_def)
  have "fst (SplitBuffer m buf) = Inr 0
     \<and> pm_cerr (snd (SplitBuffer m buf)) = [NumEventsInconsistent]
     \<and> fst (drain 5 (ReStart (snd (SplitBuffer m buf))))
        = [[0x80C00002, 0x90C00000], [0x80C00002, 0x11], [0x80C00002, 0x22],
           [0x80C00002, 0x90C00001], [0x80C00002, 0x33, 0x88C00007]]"
    using SplitBuffer_mismatch_best_effort [OF ev h1 h2 h3 h4] facts
    by (simp del: drain.simps) (simp add: eb)
  then show ?thesis
    using facts h2 h4 ev
    by (simp add: m_def [symmetric] buf_def [symmetric] Let_def)
qed

text \<open>
  Claim C3. A mismatch between the number of sub-buffers and the declared block
  size is to be logged only, with \<^verbatim>\<open>SplitBuffer\<close> returning and the sub-buffers
  kept. For a module of slot 3 and a buffer whose only word is a block header
  of slot 5 with block size 2, the scan enters multiblock mode and produces no
  sub-buffer. At debug level 0 \<^verbatim>\<open>SplitBuffer\<close> reports the mismatch and returns
  0. At debug level 1 it reports the mismatch and calls \<^verbatim>\<open>PrintBlocks\<close>, whose
  loop never sees \<^verbatim>\<open>BlockIsDone\<close> because \<^verbatim>\<open>GetNextBlock\<close> returns at once on
  an empty accumulator, and \<^verbatim>\<open>SplitBuffer\<close> ends with the exception of
  \<^verbatim>\<open>PrintBlocks\<close> instead of returning.
\<close>

theorem C3_debug_print_throws:
  "(let buf = [0x81400002];
        quiet = PipeliningModule_new 3;
        debug = (PipeliningModule_new 3)\<lparr>fDebug := 1\<rparr>;
        (m1, l) = split_scan (quiet\<lparr>eventblock := [], fBlockIsDone := False\<rparr>) buf
    in IsMultiBlockMode m1
     \<and> unat (block_size m1) \<noteq> length (eventblock m1)
     \<and> fst (SplitBuffer quiet buf) = Inr 0
     \<and> eventblock (snd (SplitBuffer quiet buf)) = eventblock m1
     \<and> pm_cerr (snd (SplitBuffer quiet buf)) = [NumEventsInconsistent]
     \<and> fst (SplitBuffer debug buf) = Inl RuntimeError_infinite_loop_PrintBlocks)"
proof -
  define q where "q = PipeliningModule_new 3"
  define m where "m = (PipeliningModule_new 3)\<lparr>fDebug := 1\<rparr>"
  define m3 where "m3 = m\<lparr>fMultiBlockMode := True, block_size := 2, fBlockHeader := 0x81400002,
     data_type_def := 0, fFirstTime := False, pm_cerr := [NumEventsInconsistent]\<rparr>"
  have evq: "split_scan (q\<lparr>eventblock := [], fBlockIsDone := False\<rparr>) [0x81400002]
      = (q\<lparr>fMultiBlockMode := True, block_size := 2, fBlockHeader := 0x81400002, data_type_def := 0\<rparr>,
         \<lparr>oneEventBuffer = [], eventnum = 1, slot_blk_hdr = 5, slot_evt_hdr = 0, BlockStart = 0\<rparr>)"
    by (simp add: q_def split_scan_def PipeliningModule_new_def ReStart_def
      split_word_def split_case0_def split_locals_init_def Let_def)
  have ev: "split_scan (m\<lparr>eventblock := [], fBlockIsDone := False\<rparr>) [0x81400002]
      = (m\<lparr>fMultiBlockMode := True, block_size := 2, fBlockHeader := 0x81400002, data_type_def := 0\<rparr>,
         \<lparr>oneEventBuffer = [], eventnum = 1, slot_blk_hdr = 5, slot_evt_hdr = 0, BlockStart = 0\<rparr>)"
    by (simp add: m_def split_scan_def PipeliningModule_new_def ReStart_def
      split_word_def split_case0_def split_locals_init_def Let_def)
  have quiet: "SplitBuffer q [0x81400002]
      = (Inr 0, q\<lparr>fMultiBlockMode := True, block_size := 2, fBlockHeader := 0x81400002,
           data_type_def := 0, fFirstTime := False, pm_cerr := [NumEventsInconsistent]\<rparr>)"
    by (simp add: SplitBuffer_def evq Let_def IsMultiBlockMode_def)
      (simp add: q_def PipeliningModule_new_def ReStart_def)
  have pb: "fst (PrintBlocks m3) = Inl RuntimeError_infinite_loop_PrintBlocks"
    by (rule PrintBlocks_empty) (simp_all add: m3_def m_def PipeliningModule_new_def ReStart_def)
  have "SplitBuffer m [0x81400002] = (case PrintBlocks m3 of (Inl e, m4) \<Rightarrow> (Inl e, m4) | (Inr u, m4) \<Rightarrow> (Inr 0, m4))"
    by (simp add: SplitBuffer_def ev Let_def IsMultiBlockMode_def)
      (simp add: m3_def m_def PipeliningModule_new_def ReStart_def)
  with pb have thrown: "fst (SplitBuffer m [0x81400002]) = Inl RuntimeError_infinite_loop_PrintBlocks"
    by (cases "PrintBlocks m3") (auto split: sum.splits)
  have facts: "IsMultiBlockMode (fst (split_scan (q\<lparr>eventblock := [], fBlockIsDone := False\<rparr>) [0x81400002]))"
    "unat (block_size (fst (split_scan (q\<lparr>eventblock := [], fBlockIsDone := False\<rparr>) [0x81400002])))
       \<noteq> length (eventblock (fst (split_scan (q\<lparr>eventblock := [], fBlockIsDone := False\<rparr>) [0x81400002])))"
    "eventblock (fst (split_scan (q\<lparr>eventblock := [], fBlockIsDone := False\<rparr>) [0x81400002])) = []"
    by (simp_all add: evq IsMultiBlockMode_def) (simp_all add: q_def PipeliningModule_new_def ReStart_def)
  have returned: "fst (SplitBuffer q [0x81400002]) = Inr 0"
    "eventblock (snd (SplitBuffer q [0x81400002])) = []"
    "pm_cerr (snd (SplitBuffer q [0x81400002])) = [NumEventsInconsistent]"
    by (simp_all add: quiet) (simp_all add: q_def PipeliningModule_new_def ReStart_def)
  show ?thesis
    using thrown returned facts unfolding m_def q_def
    by (simp add: Let_def case_prod_beta)
qed

lemma scan_no_flag_no_blocks:
  assumes "\<not> fMultiBlockMode (fst (foldl split_word s ds))"
  shows "eventblock (fst (foldl split_word s ds)) = eventblock (fst s)"
proof -
  have sm: "\<forall>w\<in>set ds. is_block_header w \<longrightarrow> declared_block_size w \<le> 1"
  proof (rule ccontr)
    assume "\<not> ?thesis"
    then have "\<exists>w\<in>set ds. is_block_header w \<and> 1 < declared_block_size w" by (auto simp: not_le)
    then have "fMultiBlockMode (fst (foldl split_word s ds))" by (rule flag_set_foldl)
    with assms show False by simp
  qed
  have off: "\<not> fMultiBlockMode (fst s)" using assms flag_foldl by blast
  from legacy_foldl [OF sm off] show ?thesis by simp
qed

text \<open>
  Claim C4, as amended. (1) No call of \<^verbatim>\<open>SplitBuffer\<close> clears the multiblock
  flag. (2) When the buffer is scanned, that is on the first call or when the
  flag is already set, a block header with block size above 1 sets the flag.
  (3) The result of \<^verbatim>\<open>SplitBuffer\<close> does not depend on the sub-buffers and the
  done flag left by earlier calls: both are rebuilt. (4) When the module is not
  in multiblock mode after the call, the cursor is 1 and the accumulator holds
  the buffer alone.
\<close>

theorem C4_flag_sticky_accumulator_rebuilt:
  "(fMultiBlockMode m \<longrightarrow> fMultiBlockMode (snd (SplitBuffer m buf)))
   \<and> ((fFirstTime m \<or> fMultiBlockMode m) \<and> (\<exists>w\<in>set buf. is_block_header w \<and> 1 < declared_block_size w)
        \<longrightarrow> fMultiBlockMode (snd (SplitBuffer m buf)))
   \<and> SplitBuffer (m\<lparr>eventblock := e, fBlockIsDone := b\<rparr>) buf = SplitBuffer m buf
   \<and> (\<not> fMultiBlockMode (snd (SplitBuffer m buf))
        \<longrightarrow> index_buffer (snd (SplitBuffer m buf)) = 1 \<and> eventblock (snd (SplitBuffer m buf)) = [buf])"
proof -
  define m0 where "m0 = m\<lparr>eventblock := [], fBlockIsDone := False\<rparr>"
  obtain m1 l where scan: "split_scan m0 buf = (m1, l)" by (cases "split_scan m0 buf")
  define m2 where "m2 = m1\<lparr>fFirstTime := False\<rparr>"
  define m3 where "m3 = (if unat (block_size m1) \<noteq> length (eventblock m1)
                  then m2\<lparr>pm_cerr := pm_cerr m1 @ [NumEventsInconsistent]\<rparr> else m2)"
  have m3flag: "fMultiBlockMode m3 = fMultiBlockMode m1" by (simp add: m3_def m2_def)
  have pbflag: "fMultiBlockMode (snd (PrintBlocks m3)) = fMultiBlockMode m1"
    by (simp add: PrintBlocks_flag m3flag)
  have sc: "fFirstTime m \<or> fMultiBlockMode m \<Longrightarrow> SplitBuffer m buf =
     (if \<not> fMultiBlockMode m1 then (Inr 1, m2\<lparr>eventblock := eventblock m1 @ [buf], index_buffer := 1\<rparr>)
      else if 1 \<le> fDebug m1
           then (case PrintBlocks m3 of (Inl e, m4) \<Rightarrow> (Inl e, m4) | (Inr u, m4) \<Rightarrow> (Inr 0, m4))
           else (Inr 0, m3))"
    using SplitBuffer_scanned [of m buf m1 l] scan
    by (simp add: m0_def Let_def m2_def m3_def)
  have after: "fFirstTime m \<or> fMultiBlockMode m \<Longrightarrow> fMultiBlockMode (snd (SplitBuffer m buf)) = fMultiBlockMode m1"
    using pbflag by (cases "PrintBlocks m3") (auto simp add: sc m3flag m2_def split: sum.splits)
  have mono: "fMultiBlockMode m \<Longrightarrow> fMultiBlockMode m1"
    using frame_scan [of m0 buf] scan by (simp add: scan_frame_def m0_def)
  have setf: "\<exists>w\<in>set buf. is_block_header w \<and> 1 < declared_block_size w \<Longrightarrow> fMultiBlockMode m1"
    using flag_set_foldl [of buf "(m0\<lparr>block_size := 0\<rparr>, split_locals_init)"] scan
    by (simp add: split_scan_def)
  have empty: "\<not> fMultiBlockMode m1 \<Longrightarrow> eventblock m1 = []"
    using scan_no_flag_no_blocks [of "(m0\<lparr>block_size := 0\<rparr>, split_locals_init)" buf] scan
    by (simp add: split_scan_def m0_def)
  have c1: "fMultiBlockMode m \<longrightarrow> fMultiBlockMode (snd (SplitBuffer m buf))"
    using after mono by simp
  have c2: "(fFirstTime m \<or> fMultiBlockMode m) \<and> (\<exists>w\<in>set buf. is_block_header w \<and> 1 < declared_block_size w)
        \<longrightarrow> fMultiBlockMode (snd (SplitBuffer m buf))"
    using after setf by blast
  have c3: "SplitBuffer (m\<lparr>eventblock := e, fBlockIsDone := b\<rparr>) buf = SplitBuffer m buf"
    by (simp add: SplitBuffer_def)
  have c4: "\<not> fMultiBlockMode (snd (SplitBuffer m buf))
        \<longrightarrow> index_buffer (snd (SplitBuffer m buf)) = 1 \<and> eventblock (snd (SplitBuffer m buf)) = [buf]"
  proof (cases "fFirstTime m \<or> fMultiBlockMode m")
    case True
    show ?thesis
    proof
      assume "\<not> fMultiBlockMode (snd (SplitBuffer m buf))"
      with after [OF True] have off: "\<not> fMultiBlockMode m1" by simp
      with empty show "index_buffer (snd (SplitBuffer m buf)) = 1 \<and> eventblock (snd (SplitBuffer m buf)) = [buf]"
        by (simp add: sc [OF True])
    qed
  next
    case False
    then show ?thesis by (simp add: SplitBuffer_not_scanned)
  qed
  from c1 c2 c3 c4 show ?thesis by blast
qed

lemmas pm_eval_defs = SplitBuffer_def split_scan_def PipeliningModule_new_def ReStart_def
  IsMultiBlockMode_def split_word_def split_case0_def split_case1_def split_case2_def
  split_default_def split_locals_init_def GetNextBlock_def GetIndex_def Let_def

theorem C4_flag_sticky_accumulator_rebuilt_witness:
  "(let m = PipeliningModule_new 3;
        m' = snd (SplitBuffer m [0x80C00002]);
        m'' = snd (SplitBuffer m' [0x80C00001]);
        k = snd (SplitBuffer m [0x80C00001])
    in fFirstTime m \<and> is_block_header 0x80C00002 \<and> 1 < declared_block_size 0x80C00002
     \<and> fMultiBlockMode m' \<and> fMultiBlockMode m''
     \<and> SplitBuffer (m'\<lparr>eventblock := [[1, 2], [3]], fBlockIsDone := True\<rparr>) [0x80C00001] = SplitBuffer m' [0x80C00001]
     \<and> \<not> fMultiBlockMode k \<and> index_buffer k = 1 \<and> eventblock k = [[0x80C00001]])"
proof -
  define m where "m = PipeliningModule_new 3"
  define m' where "m' = snd (SplitBuffer m [0x80C00002])"
  define m'' where "m'' = snd (SplitBuffer m' [0x80C00001])"
  define k where "k = snd (SplitBuffer m [0x80C00001])"
  have first: "fFirstTime m" by (simp add: m_def PipeliningModule_new_def ReStart_def)
  have hdr: "is_block_header 0x80C00002" "1 < declared_block_size 0x80C00002"
    by (simp_all add: is_block_header_def declared_block_size_def)
  then have ex: "\<exists>w\<in>set [0x80C00002]. is_block_header w \<and> 1 < declared_block_size w" by simp
  have f1: "fMultiBlockMode m'"
    using C4_flag_sticky_accumulator_rebuilt [where m = m and buf = "[0x80C00002]"] first ex unfolding m'_def by blast
  have f2: "fMultiBlockMode m''"
    using C4_flag_sticky_accumulator_rebuilt [where m = m' and buf = "[0x80C00001]"] f1 unfolding m''_def by blast
  have f3: "SplitBuffer (m'\<lparr>eventblock := [[1, 2], [3]], fBlockIsDone := True\<rparr>) [0x80C00001] = SplitBuffer m' [0x80C00001]"
    using C4_flag_sticky_accumulator_rebuilt [where m = m' and buf = "[0x80C00001]" and e = "[[1, 2], [3]]" and b = True] by blast
  have off: "\<not> fMultiBlockMode k"
    by (simp add: k_def m_def pm_eval_defs)
  have f4: "index_buffer k = 1 \<and> eventblock k = [[0x80C00001]]"
    using C4_flag_sticky_accumulator_rebuilt [where m = m and buf = "[0x80C00001]"] off unfolding k_def by blast
  show ?thesis
    using first hdr f1 f2 f3 off f4
    by (simp add: m_def [symmetric] m'_def [symmetric] m''_def [symmetric] k_def [symmetric] Let_def)
qed

text \<open>
  Claim C4 as stated fails in two places. In multiblock mode at debug level 0
  \<^verbatim>\<open>SplitBuffer\<close> does not touch the cursor: after two calls of
  \<^verbatim>\<open>GetNextBlock\<close> it is 2, it is still 2 after the next \<^verbatim>\<open>SplitBuffer\<close>, and
  the following calls of \<^verbatim>\<open>GetNextBlock\<close> report an index problem, return the
  first sub-buffer twice and never set \<^verbatim>\<open>BlockIsDone\<close>. And a module whose
  first buffer was a single block returns early on every later call, so a
  later block header with block size 2 does not set the flag.
\<close>

theorem C4_cursor_carried_over_counterexample:
  "(let buf = [0x80C00002, 0x90C00000, 0x98000011, 0x22, 0x90C00001, 0x98000033, 0x88C00007];
        m = snd (SplitBuffer (PipeliningModule_new 3) buf);
        m' = snd (GetNextBlock (snd (GetNextBlock m)));
        m'' = snd (SplitBuffer m' buf)
    in fMultiBlockMode m' \<and> BlockIsDone m' \<and> index_buffer m' = 2
     \<and> fst (SplitBuffer m' buf) = Inr 0 \<and> index_buffer m'' = 2
     \<and> index_buffer (snd (SplitBuffer (ReStart m') buf)) = 0
     \<and> fst (GetNextBlock m'') = [0x80C00002, 0x90C00000, 0x98000011, 0x22]
     \<and> fst (GetNextBlock (snd (GetNextBlock m''))) = [0x80C00002, 0x90C00000, 0x98000011, 0x22]
     \<and> pm_cerr (snd (GetNextBlock (snd (GetNextBlock m'')))) = [IndexProblem, IndexProblem]
     \<and> \<not> BlockIsDone (snd (GetNextBlock (snd (GetNextBlock m'')))))
   \<and> (let k = snd (SplitBuffer (PipeliningModule_new 3) [0x80C00001]);
            k' = snd (SplitBuffer k [0x80C00002, 0x90C00000, 0x98000011])
        in \<not> fFirstTime k \<and> is_block_header 0x80C00002 \<and> 1 < declared_block_size 0x80C00002
         \<and> \<not> fMultiBlockMode k')"
proof -
  define buf :: "u32 list" where
    "buf = [0x80C00002, 0x90C00000, 0x98000011, 0x22, 0x90C00001, 0x98000033, 0x88C00007]"
  define b1 :: "u32 list" where "b1 = [0x80C00002, 0x90C00000, 0x98000011, 0x22]"
  define b2 :: "u32 list" where "b2 = [0x80C00002, 0x90C00001, 0x98000033, 0x88C00007]"
  define M where "M = (PipeliningModule_new 3)\<lparr>fMultiBlockMode := True, block_size := 2,
           fBlockHeader := 0x80C00002, data_type_def := 1, fFirstTime := False,
           eventblock := [b1, b2]\<rparr>"
  have s1: "SplitBuffer (PipeliningModule_new 3) buf = (Inr 0, M)"
    by (simp add: buf_def M_def b1_def b2_def SplitBuffer_def split_scan_def PipeliningModule_new_def
      ReStart_def IsMultiBlockMode_def split_word_def split_case0_def split_case1_def split_case2_def
      split_default_def split_locals_init_def Let_def)
  have g1: "GetNextBlock M = (b1, M\<lparr>index_buffer := 1\<rparr>)"
    by (simp add: M_def GetNextBlock_def GetIndex_def IsMultiBlockMode_def PipeliningModule_new_def ReStart_def)
  have g2: "GetNextBlock (M\<lparr>index_buffer := 1\<rparr>) = (b2, M\<lparr>index_buffer := 2, fBlockIsDone := True\<rparr>)"
    by (simp add: M_def GetNextBlock_def GetIndex_def IsMultiBlockMode_def PipeliningModule_new_def ReStart_def)
  have s2: "SplitBuffer (M\<lparr>index_buffer := 2, fBlockIsDone := True\<rparr>) buf = (Inr 0, M\<lparr>index_buffer := 2\<rparr>)"
    by (simp add: buf_def M_def b1_def b2_def SplitBuffer_def split_scan_def PipeliningModule_new_def
      ReStart_def IsMultiBlockMode_def split_word_def split_case0_def split_case1_def split_case2_def
      split_default_def split_locals_init_def Let_def)
  have s3: "SplitBuffer (ReStart (M\<lparr>index_buffer := 2, fBlockIsDone := True\<rparr>)) buf = (Inr 0, M)"
    by (simp add: buf_def M_def b1_def b2_def SplitBuffer_def split_scan_def PipeliningModule_new_def
      ReStart_def IsMultiBlockMode_def split_word_def split_case0_def split_case1_def split_case2_def
      split_default_def split_locals_init_def Let_def)
  have g3: "GetNextBlock (M\<lparr>index_buffer := 2\<rparr>) = (b1, M\<lparr>index_buffer := 3, pm_cerr := [IndexProblem]\<rparr>)"
    by (simp add: M_def GetNextBlock_def GetIndex_def IsMultiBlockMode_def PipeliningModule_new_def ReStart_def)
  have g4: "GetNextBlock (M\<lparr>index_buffer := 3, pm_cerr := [IndexProblem]\<rparr>)
      = (b1, M\<lparr>index_buffer := 4, pm_cerr := [IndexProblem, IndexProblem]\<rparr>)"
    by (simp add: M_def GetNextBlock_def GetIndex_def IsMultiBlockMode_def PipeliningModule_new_def ReStart_def)
  have part1: "fMultiBlockMode (M\<lparr>index_buffer := 2, fBlockIsDone := True\<rparr>)"
    "BlockIsDone (M\<lparr>index_buffer := 2, fBlockIsDone := True\<rparr>)"
    "\<not> BlockIsDone (M\<lparr>index_buffer := 4, pm_cerr := [IndexProblem, IndexProblem]\<rparr>)"
    "index_buffer M = 0"
    by (simp_all add: M_def BlockIsDone_def PipeliningModule_new_def ReStart_def)
  define K where "K = (PipeliningModule_new 3)\<lparr>block_size := 1, fBlockHeader := 0x80C00001,
      data_type_def := 0, fFirstTime := False, eventblock := [[0x80C00001]], index_buffer := 1\<rparr>"
  have k1: "SplitBuffer (PipeliningModule_new 3) [0x80C00001] = (Inr 1, K)"
    by (simp add: K_def SplitBuffer_def split_scan_def PipeliningModule_new_def
      ReStart_def IsMultiBlockMode_def split_word_def split_case0_def split_locals_init_def Let_def)
  have k2: "SplitBuffer K [0x80C00002, 0x90C00000, 0x98000011]
      = (Inr 1, K\<lparr>eventblock := [[0x80C00002, 0x90C00000, 0x98000011]]\<rparr>)"
    by (simp add: K_def SplitBuffer_def PipeliningModule_new_def ReStart_def IsMultiBlockMode_def Let_def)
  have part2: "\<not> fFirstTime K" "\<not> fMultiBlockMode (K\<lparr>eventblock := [[0x80C00002, 0x90C00000, 0x98000011]]\<rparr>)"
    "is_block_header 0x80C00002" "1 < declared_block_size 0x80C00002"
    by (simp_all add: K_def PipeliningModule_new_def ReStart_def is_block_header_def declared_block_size_def)
  show ?thesis
    unfolding buf_def [symmetric] Let_def
    using part1 part2
    by (simp add: s1 g1 g2 s2 s3 g3 g4 k1 k2 b1_def [symmetric])
qed

section \<open>Proofs about FastbusModule\<close>

lemma fb_debug_fields [simp]:
  "fSlot_fb (fb_debug t m) = fSlot_fb m" "fCrate (fb_debug t m) = fCrate m"
  "fHasHeader (fb_debug t m) = fHasHeader m" "fSlotMask (fb_debug t m) = fSlotMask m"
  "fSlotShift (fb_debug t m) = fSlotShift m" "fChanMask (fb_debug t m) = fChanMask m"
  "fChanShift (fb_debug t m) = fChanShift m" "fDataMask (fb_debug t m) = fDataMask m"
  "fWdcntMask (fb_debug t m) = fWdcntMask m" "fModelNum (fb_debug t m) = fModelNum m"
  "fHeader (fb_debug t m) = fHeader m" "fWordsSeen (fb_debug t m) = fWordsSeen m"
  "fChan (fb_debug t m) = fChan m" "fData (fb_debug t m) = fData m" "fRawData (fb_debug t m) = fRawData m"
  by (simp_all add: fb_debug_def split: option.splits)

lemma same_config_refl [simp]: "same_config m m"
  by (simp add: same_config_def)

lemma same_config_trans: "same_config a b \<Longrightarrow> same_config b c \<Longrightarrow> same_config a c"
  by (simp add: same_config_def)

lemma same_config_IsSlot: "same_config m m' \<Longrightarrow> IsSlot m' = IsSlot m"
  by (rule ext) (simp add: same_config_def IsSlot_def)

lemma same_config_decode: "same_config m m' \<Longrightarrow> fb_decode m' = fb_decode m"
  by (rule ext) (simp add: same_config_def fb_decode_def Chan_def Data_def)

lemma same_config_slot_run: "same_config m m' \<Longrightarrow> slot_run m' mem p pstop = slot_run m mem p pstop"
  by (simp add: slot_run_def same_config_IsSlot)

lemma loop_body_header:
  assumes "fHasHeader m" and "fWordsSeen m = 0"
  shows "same_config m (fst (loop_body m sldat w))" and "fHeader (fst (loop_body m sldat w)) = w"
    and "fWordsSeen (fst (loop_body m sldat w)) = 1" and "snd (loop_body m sldat w) = sldat"
  using assms by (simp_all add: loop_body_def same_config_def)

lemma loop_body_data:
  assumes "\<not> (fHasHeader m \<and> fWordsSeen m = 0)"
  shows "same_config m (fst (loop_body m sldat w))" and "fHeader (fst (loop_body m sldat w)) = fHeader m"
    and "fWordsSeen (fst (loop_body m sldat w)) = fWordsSeen m + 1"
    and "snd (loop_body m sldat w) = sldat @ [fb_decode m w]"
  using assms by (auto simp add: loop_body_def same_config_def Let_def Decode_def fb_decode_def)

lemma LoadSlot_loop_unfold:
  "LoadSlot_loop mem pstop m sldat p =
     (if p < length mem then
        if IsSlot m (mem ! p) then
          if int (p + 1) > pstop then Some (loop_body m sldat (mem ! p))
          else LoadSlot_loop mem pstop (fst (loop_body m sldat (mem ! p))) (snd (loop_body m sldat (mem ! p))) (p + 1)
        else Some (m, sldat)
      else None)"
  by (subst LoadSlot_loop.simps) (simp add: loop_body_def Let_def split: prod.splits)

lemma slot_run_unfold:
  assumes "int p \<le> pstop" and "p < length mem"
  shows "slot_run m mem p pstop = (if IsSlot m (mem ! p) then mem ! p # slot_run m mem (p + 1) pstop else [])"
proof -
  have n: "nat (pstop + 1 - int p) = Suc (nat (pstop + 1 - int (p + 1)))" using assms(1) by simp
  have d: "drop p mem = mem ! p # drop (Suc p) mem" using assms(2) by (simp add: Cons_nth_drop_Suc)
  show ?thesis unfolding slot_run_def n d by simp
qed

lemma slot_run_end: "pstop < int p \<Longrightarrow> slot_run m mem p pstop = []"
  by (simp add: slot_run_def)

lemma words_seen_succ:
  fixes x :: u32
  assumes "unat x + k < 2 ^ 32" and "0 < k"
  shows "x + 1 \<noteq> 0" and "unat (x + 1) = Suc (unat x)"
proof -
  have "unat x + unat (1 :: u32) < 2 ^ LENGTH(32)" using assms by simp
  then have "unat (x + 1) = unat x + unat (1 :: u32)" by (simp only: unat_add_lem [THEN iffD1])
  then show u: "unat (x + 1) = Suc (unat x)" by simp
  show "x + 1 \<noteq> 0"
  proof
    assume "x + 1 = 0"
    then have "unat (x + 1) = 0" by simp
    with u show False by simp
  qed
qed

lemma loop_data_mode:
  assumes "\<not> (fHasHeader m \<and> fWordsSeen m = 0)" and "int p \<le> pstop" and "pstop < int (length mem)"
    and "unat (fWordsSeen m) + nat (pstop + 1 - int p) < 2 ^ 32"
  shows "\<exists>m'. LoadSlot_loop mem pstop m sldat p = Some (m', sldat @ map (fb_decode m) (slot_run m mem p pstop))
      \<and> same_config m m' \<and> fHeader m' = fHeader m
      \<and> fWordsSeen m' = fWordsSeen m + of_nat (length (slot_run m mem p pstop))"
  using assms
proof (induction n \<equiv> "nat (pstop - int p)" arbitrary: m sldat p)
  case 0
  then have pm: "p < length mem" and last: "int (p + 1) > pstop" by simp_all
  show ?case
  proof (cases "IsSlot m (mem ! p)")
    case False
    then show ?thesis
      using pm by (subst LoadSlot_loop_unfold) (simp add: slot_run_unfold [OF "0.prems"(2) pm])
  next
    case True
    have run: "slot_run m mem p pstop = [mem ! p]"
      using True last by (simp add: slot_run_unfold [OF "0.prems"(2) pm] slot_run_end)
    have "LoadSlot_loop mem pstop m sldat p = Some (loop_body m sldat (mem ! p))"
      using pm True last by (subst LoadSlot_loop_unfold) simp
    then show ?thesis
      using loop_body_data [OF "0.prems"(1), of sldat "mem ! p"] run
      by (cases "loop_body m sldat (mem ! p)") simp
  qed
next
  case (Suc n)
  then have pm: "p < length mem" and more: "\<not> int (p + 1) > pstop" by simp_all
  show ?case
  proof (cases "IsSlot m (mem ! p)")
    case False
    then show ?thesis
      using pm by (subst LoadSlot_loop_unfold) (simp add: slot_run_unfold [OF Suc.prems(2) pm])
  next
    case True
    define m2 where "m2 = fst (loop_body m sldat (mem ! p))"
    define s2 where "s2 = snd (loop_body m sldat (mem ! p))"
    have b: "same_config m m2" "fHeader m2 = fHeader m" "fWordsSeen m2 = fWordsSeen m + 1"
      "s2 = sldat @ [fb_decode m (mem ! p)]"
      using loop_body_data [OF Suc.prems(1), of sldat "mem ! p"] by (simp_all add: m2_def s2_def)
    have pos: "0 < nat (pstop + 1 - int p)" using Suc.prems(2) by simp
    have ws: "fWordsSeen m + 1 \<noteq> 0" "unat (fWordsSeen m + 1) = Suc (unat (fWordsSeen m))"
      using words_seen_succ [OF Suc.prems(4) pos] by simp_all
    have run: "slot_run m mem p pstop = mem ! p # slot_run m mem (p + 1) pstop"
      using True by (simp add: slot_run_unfold [OF Suc.prems(2) pm])
    have un: "LoadSlot_loop mem pstop m sldat p = LoadSlot_loop mem pstop m2 s2 (p + 1)"
      using pm True more by (subst LoadSlot_loop_unfold) (simp add: m2_def s2_def)
    have "\<exists>m'. LoadSlot_loop mem pstop m2 s2 (p + 1) = Some (m', s2 @ map (fb_decode m2) (slot_run m2 mem (p + 1) pstop))
      \<and> same_config m2 m' \<and> fHeader m' = fHeader m2
      \<and> fWordsSeen m' = fWordsSeen m2 + of_nat (length (slot_run m2 mem (p + 1) pstop))"
    proof (rule Suc.hyps(1))
      show "n = nat (pstop - int (p + 1))" using Suc.hyps(2) by simp
      show "\<not> (fHasHeader m2 \<and> fWordsSeen m2 = 0)" using b ws by simp
      show "int (p + 1) \<le> pstop" using more by simp
      show "pstop < int (length mem)" by (rule Suc.prems(3))
      show "unat (fWordsSeen m2) + nat (pstop + 1 - int (p + 1)) < 2 ^ 32"
        using Suc.prems(4) Suc.prems(2) b ws by simp
    qed
    then obtain m' where r: "LoadSlot_loop mem pstop m2 s2 (p + 1) = Some (m', s2 @ map (fb_decode m2) (slot_run m2 mem (p + 1) pstop))"
      and c: "same_config m2 m'" and h: "fHeader m' = fHeader m2"
      and w: "fWordsSeen m' = fWordsSeen m2 + of_nat (length (slot_run m2 mem (p + 1) pstop))"
      by blast
    have "LoadSlot_loop mem pstop m sldat p = Some (m', sldat @ map (fb_decode m) (slot_run m mem p pstop))"
      using un r b run by (simp add: same_config_decode [OF b(1)] same_config_slot_run [OF b(1)])
    moreover have "same_config m m'" using b(1) c by (rule same_config_trans)
    moreover have "fHeader m' = fHeader m" using h b by simp
    moreover have "fWordsSeen m' = fWordsSeen m + of_nat (length (slot_run m mem p pstop))"
      using w b run by (simp add: same_config_slot_run [OF b(1)])
    ultimately show ?thesis by blast
  qed
qed

lemma loop_header_mode:
  assumes hh: "fHasHeader m" and z: "fWordsSeen m = 0" and lo: "int p \<le> pstop" and hi: "pstop < int (length mem)"
    and sz: "nat (pstop + 1 - int p) < 2 ^ 32"
  shows "\<exists>m'. LoadSlot_loop mem pstop m sldat p = Some (m', sldat @ map (fb_decode m) (tl (slot_run m mem p pstop)))
      \<and> same_config m m'
      \<and> fHeader m' = (if slot_run m mem p pstop = [] then fHeader m else hd (slot_run m mem p pstop))
      \<and> fWordsSeen m' = of_nat (length (slot_run m mem p pstop))"
proof -
  from lo hi have pm: "p < length mem" by simp
  show ?thesis
  proof (cases "IsSlot m (mem ! p)")
    case False
    then show ?thesis
      using pm z by (subst LoadSlot_loop_unfold) (simp add: slot_run_unfold [OF lo pm])
  next
    case True
    define m2 where "m2 = fst (loop_body m sldat (mem ! p))"
    define s2 where "s2 = snd (loop_body m sldat (mem ! p))"
    have b: "same_config m m2" "fHeader m2 = mem ! p" "fWordsSeen m2 = 1" "s2 = sldat"
      using loop_body_header [OF hh z, of sldat "mem ! p"] by (simp_all add: m2_def s2_def)
    have run: "slot_run m mem p pstop = mem ! p # slot_run m mem (p + 1) pstop"
      using True by (simp add: slot_run_unfold [OF lo pm])
    show ?thesis
    proof (cases "int (p + 1) > pstop")
      case True
      have "LoadSlot_loop mem pstop m sldat p = Some (m2, s2)"
        using pm \<open>IsSlot m (mem ! p)\<close> True by (subst LoadSlot_loop_unfold) (simp add: m2_def s2_def)
      then show ?thesis using b run True by (simp add: slot_run_end)
    next
      case False
      have un: "LoadSlot_loop mem pstop m sldat p = LoadSlot_loop mem pstop m2 s2 (p + 1)"
        using pm \<open>IsSlot m (mem ! p)\<close> False by (subst LoadSlot_loop_unfold) (simp add: m2_def s2_def)
      have "\<exists>m'. LoadSlot_loop mem pstop m2 s2 (p + 1) = Some (m', s2 @ map (fb_decode m2) (slot_run m2 mem (p + 1) pstop))
        \<and> same_config m2 m' \<and> fHeader m' = fHeader m2
        \<and> fWordsSeen m' = fWordsSeen m2 + of_nat (length (slot_run m2 mem (p + 1) pstop))"
      proof (rule loop_data_mode)
        show "\<not> (fHasHeader m2 \<and> fWordsSeen m2 = 0)" using b by simp
        show "int (p + 1) \<le> pstop" using False by simp
        show "pstop < int (length mem)" by (rule hi)
        show "unat (fWordsSeen m2) + nat (pstop + 1 - int (p + 1)) < 2 ^ 32"
          using sz lo b by simp
      qed
      then obtain m' where r: "LoadSlot_loop mem pstop m2 s2 (p + 1) = Some (m', s2 @ map (fb_decode m2) (slot_run m2 mem (p + 1) pstop))"
        and c: "same_config m2 m'" and h: "fHeader m' = fHeader m2"
        and w: "fWordsSeen m' = fWordsSeen m2 + of_nat (length (slot_run m2 mem (p + 1) pstop))"
        by blast
      have "LoadSlot_loop mem pstop m sldat p = Some (m', sldat @ map (fb_decode m) (tl (slot_run m mem p pstop)))"
        using un r b run by (simp add: same_config_decode [OF b(1)] same_config_slot_run [OF b(1)])
      moreover have "same_config m m'" using b(1) c by (rule same_config_trans)
      moreover have "fHeader m' = hd (slot_run m mem p pstop)" using h b run by simp
      moreover have "fWordsSeen m' = of_nat (length (slot_run m mem p pstop))"
        using w b run by (simp add: same_config_slot_run [OF b(1)])
      ultimately show ?thesis using run by auto
    qed
  qed
qed

lemma first_load_check_config:
  "fHasHeader (fst (snd (first_load_check lim fl m))) = fHasHeader m"
  by (simp add: first_load_check_def Let_def split: prod.splits)

lemma word_count_check_fields:
  "fHeader (word_count_check m) = fHeader m" "fWordsSeen (word_count_check m) = fWordsSeen m"
  "fCrate (word_count_check m) = fCrate m" "fSlot_fb (word_count_check m) = fSlot_fb m"
  by (simp_all add: word_count_check_def Let_def)

lemma fb_debug_only_file: "(fb_debug t m)\<lparr>fDebugFile := d\<rparr> = m\<lparr>fDebugFile := d\<rparr>"
  by (simp add: fb_debug_def split: option.splits)

lemma word_count_check_only_file: "(word_count_check m)\<lparr>fDebugFile := d\<rparr> = m\<lparr>fDebugFile := d\<rparr>"
  by (simp add: word_count_check_def Let_def fb_debug_only_file)

text \<open>
  Claim C5. A module whose family declares a header word is called on a
  well-formed range (\<^verbatim>\<open>evbuffer\<close> not after \<^verbatim>\<open>pstop\<close>, \<^verbatim>\<open>pstop\<close> inside the
  array, fewer than \<open>2^32\<close> words). Let \<open>m1\<close> be the module after the first-load
  check and \<open>ws\<close> the run of words from \<^verbatim>\<open>evbuffer\<close> up to \<^verbatim>\<open>pstop\<close> that stops
  before the first word of another slot. Then \<^verbatim>\<open>LoadSlot\<close> returns; the first
  word of \<open>ws\<close> is captured as the header and gives no hit; the hits are the
  decoded remaining words of \<open>ws\<close>, in buffer order; and the value returned is
  the length of \<open>ws\<close>, so nothing after the first non-matching word or after
  \<^verbatim>\<open>pstop\<close> is consumed.
\<close>

theorem C5_LoadSlot_header_family:
  assumes hh: "fHasHeader m" and lo: "int evbuffer \<le> pstop" and hi: "pstop < int (length mem)"
    and sz: "nat (pstop + 1 - int evbuffer) < 2 ^ 32"
  shows "case first_load_check lim first_load m of (first_load', m1, errs) \<Rightarrow>
     (let ws = slot_run m1 mem evbuffer pstop in
      \<exists>r. LoadSlot lim first_load m mem evbuffer pstop = Some r
         \<and> fHeader (ls_module r) = (if ws = [] then 0 else hd ws)
         \<and> ls_hits r = map (fb_decode m1) (tl ws)
         \<and> ls_return r = of_nat (length ws))"
proof -
  obtain fl' m1 errs where flc: "first_load_check lim first_load m = (fl', m1, errs)"
    by (cases "first_load_check lim first_load m")
  define m2 where "m2 = m1\<lparr>fWordsSeen := 0, fHeader := 0\<rparr>"
  define m3 where "m3 = fb_debug (TrModelNum (fModelNum m1)) (fb_debug (TrHasHeader (fHasHeader m1)) (fb_debug TrLoadslot m2))"
  have h1: "fHasHeader m1" using first_load_check_config [of lim first_load m] flc hh by simp
  have c13: "same_config m1 m3" by (simp add: m3_def m2_def same_config_def)
  have m3: "fHasHeader m3" "fWordsSeen m3 = 0" "fHeader m3 = 0"
    using h1 by (simp_all add: m3_def m2_def)
  obtain m4 where loop: "LoadSlot_loop mem pstop m3 [] evbuffer = Some (m4, [] @ map (fb_decode m3) (tl (slot_run m3 mem evbuffer pstop)))"
    and hd4: "fHeader m4 = (if slot_run m3 mem evbuffer pstop = [] then fHeader m3 else hd (slot_run m3 mem evbuffer pstop))"
    and ws4: "fWordsSeen m4 = of_nat (length (slot_run m3 mem evbuffer pstop))"
    using loop_header_mode [OF m3(1) m3(2) lo hi sz, of "[]"] by blast
  have run: "slot_run m3 mem evbuffer pstop = slot_run m1 mem evbuffer pstop"
    by (rule same_config_slot_run [OF c13])
  have dec: "fb_decode m3 = fb_decode m1" by (rule same_config_decode [OF c13])
  have "LoadSlot lim first_load m mem evbuffer pstop =
      Some \<lparr>ls_return = fWordsSeen (word_count_check m4), ls_module = word_count_check m4,
            ls_first_load = fl', ls_hits = map (fb_decode m1) (tl (slot_run m1 mem evbuffer pstop)), ls_cerr = errs\<rparr>"
    using loop by (simp add: LoadSlot_def flc Let_def m2_def [symmetric] m3_def [symmetric] run dec)
  then show ?thesis
    using hd4 ws4 m3(3) by (simp add: flc Let_def word_count_check_fields run)
qed

lemma fb_example_run:
  "slot_run (fb_example_module 2 5) fb_example_buffer 0 3 = [0x28000003, 0x28020123, 0x28040456]"
  by (simp add: slot_run_def fb_example_module_def fb_example_buffer_def IsSlot_def)

theorem C5_LoadSlot_header_family_witness:
  "fHasHeader (fb_example_module 2 5) \<and> int 0 \<le> 3 \<and> 3 < int (length fb_example_buffer)
   \<and> (\<exists>r. LoadSlot fb_example_limits True (fb_example_module 2 5) fb_example_buffer 0 3 = Some r
         \<and> fHeader (ls_module r) = 0x28000003
         \<and> ls_hits r = [(1, 0x0123, 0x28020123), (2, 0x0456, 0x28040456)]
         \<and> ls_return r = 3)"
proof -
  have hh: "fHasHeader (fb_example_module 2 5)" by (simp add: fb_example_module_def)
  have lo: "int 0 \<le> 3" by simp
  have hi: "3 < int (length fb_example_buffer)" by (simp add: fb_example_buffer_def)
  have sz: "nat (3 + 1 - int 0) < 2 ^ 32" by simp
  have flc: "first_load_check fb_example_limits True (fb_example_module 2 5) = (False, fb_example_module 2 5, [])"
    by (simp add: first_load_check_def fb_example_limits_def fb_example_module_def)
  have dec: "fb_decode (fb_example_module 2 5) 0x28020123 = (1, 0x0123, 0x28020123)"
    "fb_decode (fb_example_module 2 5) 0x28040456 = (2, 0x0456, 0x28040456)"
    by (simp_all add: fb_decode_def Chan_def Data_def fb_example_module_def)
  show ?thesis
    using C5_LoadSlot_header_family [OF hh lo hi sz, of fb_example_limits True] hh hi
    by (simp add: flc fb_example_run dec)
qed

lemma IsSlot_wdcnt: "IsSlot (m\<lparr>fWdcntMask := k\<rparr>) = IsSlot m"
  by (rule ext) (simp add: IsSlot_def)

lemma loop_body_wdcnt:
  "loop_body (m\<lparr>fWdcntMask := k\<rparr>) sldat w = ((fst (loop_body m sldat w))\<lparr>fWdcntMask := k\<rparr>, snd (loop_body m sldat w))"
  by (cases "fDebugFile m") (simp_all add: loop_body_def Let_def Decode_def Chan_def Data_def fb_debug_def)

lemma loop_wdcnt:
  "LoadSlot_loop mem pstop (m\<lparr>fWdcntMask := k\<rparr>) sldat p
     = map_option (\<lambda>(m', hits). (m'\<lparr>fWdcntMask := k\<rparr>, hits)) (LoadSlot_loop mem pstop m sldat p)"
proof (induction n \<equiv> "length mem - p" arbitrary: m sldat p)
  case 0
  then have "\<not> p < length mem" by simp
  then show ?case
    by (subst LoadSlot_loop_unfold, subst (2) LoadSlot_loop_unfold) simp
next
  case (Suc n)
  then have pm: "p < length mem" by simp
  have IH: "LoadSlot_loop mem pstop ((fst (loop_body m sldat (mem ! p)))\<lparr>fWdcntMask := k\<rparr>) (snd (loop_body m sldat (mem ! p))) (p + 1)
     = map_option (\<lambda>(m', hits). (m'\<lparr>fWdcntMask := k\<rparr>, hits))
         (LoadSlot_loop mem pstop (fst (loop_body m sldat (mem ! p))) (snd (loop_body m sldat (mem ! p))) (p + 1))"
    using Suc.hyps(2) by (intro Suc.hyps(1)) simp
  show ?case
    using IH
    by (subst LoadSlot_loop_unfold, subst (2) LoadSlot_loop_unfold)
      (simp add: loop_body_wdcnt IsSlot_wdcnt case_prod_beta)
qed

lemma first_load_check_wdcnt:
  "first_load_check lim fl (m\<lparr>fWdcntMask := k\<rparr>)
     = (case first_load_check lim fl m of (fl', m1, errs) \<Rightarrow> (fl', m1\<lparr>fWdcntMask := k\<rparr>, errs))"
  by (simp add: first_load_check_def Let_def split: prod.splits)

lemma word_count_check_only_file2:
  "(word_count_check m)\<lparr>fWdcntMask := a, fDebugFile := d\<rparr> = m\<lparr>fWdcntMask := a, fDebugFile := d\<rparr>"
  by (simp add: word_count_check_def Let_def fb_debug_def split: option.splits)

text \<open>
  Claim C6. The check of the header's word count after the loop changes
  nothing of the module but the debug file. And the word-count mask, which
  alone decides whether the expected count equals the count seen, has no
  influence on whether \<^verbatim>\<open>LoadSlot\<close> returns, on the value returned, on the
  hits, on the messages to \<^verbatim>\<open>cerr\<close>, or on the module apart from the mask and
  the debug file: a call with a mismatch leaves the same hits as a call
  without.
\<close>

theorem C6_word_count_mismatch_is_diagnostic_only:
  "(word_count_check m)\<lparr>fDebugFile := d\<rparr> = m\<lparr>fDebugFile := d\<rparr>
   \<and> map_option ls_observable (LoadSlot lim first_load (m\<lparr>fWdcntMask := k\<rparr>) mem evbuffer pstop)
     = map_option ls_observable (LoadSlot lim first_load m mem evbuffer pstop)"
proof -
  obtain fl' m1 errs where flc: "first_load_check lim first_load m = (fl', m1, errs)"
    by (cases "first_load_check lim first_load m")
  define m3 where "m3 = fb_debug (TrModelNum (fModelNum m1)) (fb_debug (TrHasHeader (fHasHeader m1)) (fb_debug TrLoadslot (m1\<lparr>fWordsSeen := 0, fHeader := 0\<rparr>)))"
  have start: "fb_debug (TrModelNum (fModelNum m1)) (fb_debug (TrHasHeader (fHasHeader m1))
        (fb_debug TrLoadslot (m1\<lparr>fWdcntMask := k, fWordsSeen := 0, fHeader := 0\<rparr>))) = m3\<lparr>fWdcntMask := k\<rparr>"
    by (cases "fDebugFile m1") (simp_all add: m3_def fb_debug_def)
  have obs: "(word_count_check (m4\<lparr>fWdcntMask := k\<rparr>))\<lparr>fWdcntMask := 0, fDebugFile := None\<rparr>
      = (word_count_check m4)\<lparr>fWdcntMask := 0, fDebugFile := None\<rparr>" for m4
    by (simp add: word_count_check_only_file2)
  have lhs: "LoadSlot lim first_load (m\<lparr>fWdcntMask := k\<rparr>) mem evbuffer pstop =
      (case LoadSlot_loop mem pstop m3 [] evbuffer of None \<Rightarrow> None
       | Some (m4, hits) \<Rightarrow>
           Some \<lparr>ls_return = fWordsSeen m4, ls_module = word_count_check (m4\<lparr>fWdcntMask := k\<rparr>),
                 ls_first_load = fl', ls_hits = hits, ls_cerr = errs\<rparr>)"
    by (simp add: LoadSlot_def first_load_check_wdcnt flc Let_def start loop_wdcnt
        word_count_check_fields split: option.splits)
  have rhs: "LoadSlot lim first_load m mem evbuffer pstop =
      (case LoadSlot_loop mem pstop m3 [] evbuffer of None \<Rightarrow> None
       | Some (m4, hits) \<Rightarrow>
           Some \<lparr>ls_return = fWordsSeen m4, ls_module = word_count_check m4,
                 ls_first_load = fl', ls_hits = hits, ls_cerr = errs\<rparr>)"
    by (simp add: LoadSlot_def flc Let_def m3_def word_count_check_fields split: option.splits)
  have "map_option ls_observable (LoadSlot lim first_load (m\<lparr>fWdcntMask := k\<rparr>) mem evbuffer pstop)
     = map_option ls_observable (LoadSlot lim first_load m mem evbuffer pstop)"
    unfolding lhs rhs by (simp add: ls_observable_def obs split: option.splits)
  then show ?thesis by (simp add: word_count_check_only_file)
qed

lemmas fb_eval_defs = LoadSlot_def first_load_check_def word_count_check_def fb_debug_def
  IsSlot_def Chan_def Data_def Decode_def fb_example_module_def fb_example_limits_def
  fb_example_buffer_def Let_def

lemma fb_example_first_call:
  "LoadSlot fb_example_limits True (fb_example_module 2 5) fb_example_buffer 0 3
     = Some \<lparr>ls_return = 3,
             ls_module = (fb_example_module 2 5)\<lparr>fHeader := 0x28000003, fWordsSeen := 3,
                            fChan := 2, fData := 0x0456, fRawData := 0x28040456\<rparr>,
             ls_first_load = False,
             ls_hits = [(1, 0x0123, 0x28020123), (2, 0x0456, 0x28040456)],
             ls_cerr = []\<rparr>"
  by (simp add: fb_eval_defs LoadSlot_loop.simps)

lemma fb_example_second_module:
  "LoadSlot fb_example_limits False (fb_example_module 40 30) fb_example_buffer 0 3
     = Some \<lparr>ls_return = 0, ls_module = fb_example_module 40 30, ls_first_load = False,
             ls_hits = [], ls_cerr = []\<rparr>"
  by (simp add: fb_eval_defs LoadSlot_loop.simps)

lemma fb_example_second_module_alone:
  "LoadSlot fb_example_limits True (fb_example_module 40 30) fb_example_buffer 0 3
     = Some \<lparr>ls_return = 0, ls_module = fb_example_module 0 0, ls_first_load = False,
             ls_hits = [], ls_cerr = [CrateOutOfBounds, SlotOutOfBounds]\<rparr>"
  by (simp add: fb_eval_defs LoadSlot_loop.simps)

text \<open>
  Claim C7 says that every decoder detects an out-of-bounds crate or slot on
  its own first use. The code keeps the "first call" flag in a static local of
  \<^verbatim>\<open>LoadSlot\<close>, shared by all modules: once any module has been loaded, no
  other module is checked. Here the limits are 32 crates and slot 26; after a
  call for the module in crate 2, slot 5, the first call for the module in
  crate 40, slot 30 leaves crate and slot as they are and writes nothing to
  \<^verbatim>\<open>cerr\<close>.
\<close>

theorem C7_first_load_flag_is_shared:
  "MAXROC fb_example_limits \<le> fCrate (fb_example_module 40 30)
   \<and> MAXSLOT_FB fb_example_limits < fSlot_fb (fb_example_module 40 30)
   \<and> (case LoadSlot fb_example_limits True (fb_example_module 2 5) fb_example_buffer 0 3 of
         None \<Rightarrow> False
       | Some rA \<Rightarrow>
          (case LoadSlot fb_example_limits (ls_first_load rA) (fb_example_module 40 30) fb_example_buffer 0 3 of
             None \<Rightarrow> False
           | Some rB \<Rightarrow> fCrate (ls_module rB) = 40 \<and> fSlot_fb (ls_module rB) = 30 \<and> ls_cerr rB = []))"
  by (simp add: fb_example_first_call fb_example_second_module)
    (simp add: fb_example_module_def fb_example_limits_def)

lemma loop_body_same_config: "same_config m (fst (loop_body m sldat w))"
  using loop_body_header(1) [of m sldat w] loop_body_data(1) [of m sldat w] by blast

lemma loop_same_config:
  "LoadSlot_loop mem pstop m sldat p = Some (m', sldat') \<Longrightarrow> same_config m m'"
proof (induction n \<equiv> "length mem - p" arbitrary: m sldat p)
  case 0
  then have "\<not> p < length mem" by simp
  with "0.prems" show ?case by (subst (asm) LoadSlot_loop_unfold) simp
next
  case (Suc n)
  then have pm: "p < length mem" by simp
  show ?case
  proof (cases "IsSlot m (mem ! p)")
    case False
    with Suc.prems pm show ?thesis by (subst (asm) LoadSlot_loop_unfold) simp
  next
    case True
    show ?thesis
    proof (cases "int (p + 1) > pstop")
      case True
      with Suc.prems pm \<open>IsSlot m (mem ! p)\<close> have "loop_body m sldat (mem ! p) = (m', sldat')"
        by (subst (asm) LoadSlot_loop_unfold) simp
      with loop_body_same_config [of m sldat "mem ! p"] show ?thesis by simp
    next
      case False
      with Suc.prems pm \<open>IsSlot m (mem ! p)\<close>
      have r: "LoadSlot_loop mem pstop (fst (loop_body m sldat (mem ! p))) (snd (loop_body m sldat (mem ! p))) (p + 1) = Some (m', sldat')"
        by (subst (asm) LoadSlot_loop_unfold) simp
      have "same_config (fst (loop_body m sldat (mem ! p))) m'"
        using Suc.hyps(2) by (intro Suc.hyps(1) [OF _ r]) simp
      with loop_body_same_config [of m sldat "mem ! p"] show ?thesis by (rule same_config_trans)
    qed
  qed
qed

lemma LoadSlot_later_call_checks_nothing:
  assumes "LoadSlot lim False m mem evbuffer pstop = Some r"
  shows "ls_cerr r = [] \<and> fCrate (ls_module r) = fCrate m \<and> fSlot_fb (ls_module r) = fSlot_fb m"
proof -
  define m3 where "m3 = fb_debug (TrModelNum (fModelNum m)) (fb_debug (TrHasHeader (fHasHeader m)) (fb_debug TrLoadslot (m\<lparr>fWordsSeen := 0, fHeader := 0\<rparr>)))"
  from assms obtain m4 hits where loop: "LoadSlot_loop mem pstop m3 [] evbuffer = Some (m4, hits)"
    and r: "r = \<lparr>ls_return = fWordsSeen (word_count_check m4), ls_module = word_count_check m4,
                  ls_first_load = False, ls_hits = hits, ls_cerr = []\<rparr>"
    by (auto simp add: LoadSlot_def first_load_check_def Let_def m3_def split: option.splits)
  have "same_config m3 m4" using loop by (rule loop_same_config)
  moreover have "same_config m m3" by (simp add: m3_def same_config_def)
  ultimately have "same_config m m4" using same_config_trans by blast
  then show ?thesis by (simp add: r same_config_def word_count_check_fields)
qed

section \<open>Proofs about THaEtClient\<close>

lemma chunk_check_first:
  assumes "ev_data ev = w0 # rest" and "sint w0 < 2 ^ 31 - 1"
  shows "chunk_check MAXEVLEN (ev # evs)
     = (if sint w0 + 1 > MAXEVLEN then ChunkTruncated else chunk_check MAXEVLEN evs)"
  using assms by (simp add: Let_def)

text \<open>
  Claim C8. \<^verbatim>\<open>codaRead\<close> fetches a chunk whose first event starts with the
  word \<open>w0\<close>. If \<open>w0 + 1\<close> is at most \<^verbatim>\<open>MAXEVLEN\<close>, in particular equal to it,
  the rest of the chunk passes the same check, the event's byte length fits
  the buffer and the events can be put back, then \<^verbatim>\<open>codaRead\<close> returns
  \<^verbatim>\<open>CODA_OK\<close> with the event copied into \<^verbatim>\<open>evbuffer\<close>. If \<open>w0 + 1\<close> exceeds
  \<^verbatim>\<open>MAXEVLEN\<close>, in particular for \<open>MAXEVLEN + 1\<close>, \<^verbatim>\<open>codaRead\<close> returns
  \<^verbatim>\<open>CODA_ERROR\<close> with the truncation message, and nothing is delivered:
  \<^verbatim>\<open>evbuffer\<close> is unchanged and no event counts as used.
\<close>

theorem C8_event_length_boundary:
  assumes ready: "firstread c = 0" and fetch: "nread c \<le> nused c"
    and got: "et_events_get_status env = ET_OK"
    and chunk: "et_events_get_chunk env = ev # others" and data: "ev_data ev = w0 # rest"
    and noovf: "sint w0 < 2 ^ 31 - 1"
  shows "(sint w0 + 1 \<le> MAXEVLEN \<and> chunk_check MAXEVLEN others = ChunkOk
            \<and> ev_length ev \<le> bpi * nat MAXEVLEN \<and> et_events_put_status env = ET_OK
            \<longrightarrow> fst (codaRead MAXEVLEN env c) = Return CODA_OK
              \<and> evbuffer_et (snd (codaRead MAXEVLEN env c))
                  = memcpy_words (evbuffer_et c) (ev_data ev) (ev_length ev)
              \<and> nused (snd (codaRead MAXEVLEN env c)) = 1)
       \<and> (sint w0 + 1 > MAXEVLEN
            \<longrightarrow> fst (codaRead MAXEVLEN env c) = Return CODA_ERROR
              \<and> evbuffer_et (snd (codaRead MAXEVLEN env c)) = evbuffer_et c
              \<and> nused (snd (codaRead MAXEVLEN env c)) = 0
              \<and> et_cout (snd (codaRead MAXEVLEN env c)) = et_cout c @ [EventFromETTruncated])"
proof -
  note cc = chunk_check_first [OF data noovf, of MAXEVLEN others]
  show ?thesis
  proof (intro conjI impI)
    assume a: "sint w0 + 1 \<le> MAXEVLEN \<and> chunk_check MAXEVLEN others = ChunkOk
            \<and> ev_length ev \<le> bpi * nat MAXEVLEN \<and> et_events_put_status env = ET_OK"
    then have ok: "chunk_check MAXEVLEN (ev # others) = ChunkOk" using cc by simp
    have r: "codaRead MAXEVLEN env c
        = (Return CODA_OK, c\<lparr>nread := int (length (ev # others)), nused := 1,
             evbuffer_et := memcpy_words (evbuffer_et c) (ev_data ev) (ev_length ev)\<rparr>)"
      using a ready fetch got chunk ok by (auto simp add: codaRead_def Let_def)
    show "fst (codaRead MAXEVLEN env c) = Return CODA_OK" by (simp add: r)
    show "evbuffer_et (snd (codaRead MAXEVLEN env c)) = memcpy_words (evbuffer_et c) (ev_data ev) (ev_length ev)"
      by (simp add: r)
    show "nused (snd (codaRead MAXEVLEN env c)) = 1" by (simp add: r)
  next
    assume b: "sint w0 + 1 > MAXEVLEN"
    then have bad: "chunk_check MAXEVLEN (ev # others) = ChunkTruncated" using cc by simp
    have r: "codaRead MAXEVLEN env c
        = (Return CODA_ERROR, et_say EventFromETTruncated (c\<lparr>nread := int (length (ev # others)), nused := 0\<rparr>))"
      using ready fetch got chunk bad by (simp add: codaRead_def Let_def)
    show "fst (codaRead MAXEVLEN env c) = Return CODA_ERROR" by (simp add: r)
    show "evbuffer_et (snd (codaRead MAXEVLEN env c)) = evbuffer_et c" by (simp add: r et_say_def)
    show "nused (snd (codaRead MAXEVLEN env c)) = 0" by (simp add: r et_say_def)
    show "et_cout (snd (codaRead MAXEVLEN env c)) = et_cout c @ [EventFromETTruncated]" by (simp add: r et_say_def)
  qed
qed

theorem C8_event_length_boundary_witness:
  "(let MAXEVLEN = 6;
        c = (THaEtClient_new [0, 0, 0, 0, 0, 0] 0)\<lparr>firstread := 0\<rparr>;
        fits = \<lparr>ev_data = [5, 11, 12, 13, 14, 15], ev_length = 24\<rparr>;
        long = \<lparr>ev_data = [6, 11, 12, 13, 14, 15, 16], ev_length = 28\<rparr>
    in sint (5 :: u32) + 1 = MAXEVLEN \<and> sint (6 :: u32) + 1 = MAXEVLEN + 1
     \<and> firstread c = 0 \<and> nread c \<le> nused c
     \<and> fst (codaRead MAXEVLEN (et_env_ok [fits]) c) = Return CODA_OK
     \<and> evbuffer_et (snd (codaRead MAXEVLEN (et_env_ok [fits]) c)) = [5, 11, 12, 13, 14, 15]
     \<and> fst (codaRead MAXEVLEN (et_env_ok [long]) c) = Return CODA_ERROR
     \<and> evbuffer_et (snd (codaRead MAXEVLEN (et_env_ok [long]) c)) = [0, 0, 0, 0, 0, 0])"
proof -
  define c where "c = (THaEtClient_new [0, 0, 0, 0, 0, 0] 0)\<lparr>firstread := 0\<rparr>"
  define fits where "fits = \<lparr>ev_data = [5, 11, 12, 13, 14, 15 :: u32], ev_length = 24\<rparr>"
  define long where "long = \<lparr>ev_data = [6, 11, 12, 13, 14, 15, 16 :: u32], ev_length = 28\<rparr>"
  have c: "firstread c = 0" "nread c \<le> nused c" "evbuffer_et c = [0, 0, 0, 0, 0, 0]"
    by (simp_all add: c_def THaEtClient_new_def codaOpen_def initflags_def)
  have e1: "et_events_get_status (et_env_ok [fits]) = ET_OK" "et_events_get_chunk (et_env_ok [fits]) = fits # []"
    "et_events_put_status (et_env_ok [fits]) = ET_OK"
    by (simp_all add: et_env_ok_def)
  have e2: "et_events_get_status (et_env_ok [long]) = ET_OK" "et_events_get_chunk (et_env_ok [long]) = long # []"
    by (simp_all add: et_env_ok_def)
  have d1: "ev_data fits = 5 # [11, 12, 13, 14, 15]" and d2: "ev_data long = 6 # [11, 12, 13, 14, 15, 16]"
    by (simp_all add: fits_def long_def)
  have n1: "sint (5 :: u32) < 2 ^ 31 - 1" and n2: "sint (6 :: u32) < 2 ^ 31 - 1" by simp_all
  have s: "sint (5 :: u32) + 1 = 6" "sint (6 :: u32) + 1 = 6 + 1" by simp_all
  have a: "fst (codaRead 6 (et_env_ok [fits]) c) = Return CODA_OK
      \<and> evbuffer_et (snd (codaRead 6 (et_env_ok [fits]) c)) = memcpy_words (evbuffer_et c) (ev_data fits) (ev_length fits)"
    using C8_event_length_boundary [OF c(1) c(2) e1(1) e1(2) d1 n1, of 6] e1(3)
    by (simp add: fits_def bpi_def)
  have b: "fst (codaRead 6 (et_env_ok [long]) c) = Return CODA_ERROR
      \<and> evbuffer_et (snd (codaRead 6 (et_env_ok [long]) c)) = evbuffer_et c"
    using C8_event_length_boundary [OF c(1) c(2) e2(1) e2(2) d2 n2, of 6] by simp
  have m: "memcpy_words (evbuffer_et c) (ev_data fits) (ev_length fits) = [5, 11, 12, 13, 14, 15]"
    by (simp add: memcpy_words_def c fits_def bpi_def)
  show ?thesis
    using a b c s m
    by (simp add: Let_def c_def [symmetric] fits_def [symmetric] long_def [symmetric])
qed

text \<open>
  Claim C10. \<^verbatim>\<open>isOpen\<close> is true exactly when \<open>notopened\<close> is 1 and \<open>didclose\<close>
  is 0. A newly constructed client is not open in this sense; a successful
  \<^verbatim>\<open>init\<close> leaves \<open>notopened\<close> at 0, so \<^verbatim>\<open>isOpen\<close> stays false; an \<^verbatim>\<open>init\<close> in
  which \<^verbatim>\<open>et_open\<close> fails makes \<^verbatim>\<open>isOpen\<close> true; and \<^verbatim>\<open>codaClose\<close> after the
  first read makes it false again.
\<close>

theorem C10_isOpen_flags:
  "(isOpen c \<longleftrightarrow> notopened c = 1 \<and> didclose c = 0)
   \<and> \<not> isOpen (THaEtClient_new buf smode)
   \<and> (notopened c = 0 \<and> fst (init env c) = CODA_OK \<longrightarrow> \<not> isOpen (snd (init env c)))
   \<and> (didclose c = 0 \<and> station_name_ok env \<and> et_open_status env \<noteq> ET_OK \<longrightarrow> isOpen (snd (init env c)))
   \<and> (firstread c = 0 \<and> isOpen c \<longrightarrow> \<not> isOpen (snd (codaClose env c)))"
  by (auto simp add: isOpen_def THaEtClient_new_def codaOpen_def initflags_def init_def codaClose_def
      et_say_def Let_def)

theorem C10_isOpen_flags_witness:
  "(let c0 = THaEtClient_new [] 0;
        good = et_env_ok [];
        bad = (et_env_ok [])\<lparr>et_open_status := ET_ERROR\<rparr>;
        c1 = snd (codaRead 6 bad c0)
    in notopened c0 = 0 \<and> fst (init good c0) = CODA_OK \<and> \<not> isOpen (snd (init good c0))
     \<and> didclose c0 = 0 \<and> station_name_ok bad \<and> et_open_status bad \<noteq> ET_OK \<and> isOpen (snd (init bad c0))
     \<and> firstread c1 = 0 \<and> isOpen c1 \<and> \<not> isOpen (snd (codaClose good c1)))"
proof -
  define c0 where "c0 = THaEtClient_new [] 0"
  define good where "good = et_env_ok []"
  define bad where "bad = good\<lparr>et_open_status := ET_ERROR\<rparr>"
  define c1 where "c1 = snd (codaRead 6 bad c0)"
  have h0: "notopened c0 = 0" "didclose c0 = 0"
    by (simp_all add: c0_def THaEtClient_new_def codaOpen_def initflags_def)
  have h1: "fst (init good c0) = CODA_OK" by (simp add: init_def good_def et_env_ok_def)
  have h2: "station_name_ok bad" "et_open_status bad \<noteq> ET_OK" by (simp_all add: bad_def good_def et_env_ok_def)
  have h3: "firstread c1 = 0" "isOpen c1"
    by (simp_all add: c1_def codaRead_def init_def bad_def good_def et_env_ok_def c0_def THaEtClient_new_def
        codaOpen_def initflags_def et_say_def isOpen_def Let_def)
  have t1: "\<not> isOpen (snd (init good c0))"
    using C10_isOpen_flags [of c0 "[]" 0 good] h0 h1 by blast
  have t2: "isOpen (snd (init bad c0))"
    using C10_isOpen_flags [of c0 "[]" 0 bad] h0 h2 by blast
  have t3: "\<not> isOpen (snd (codaClose good c1))"
    using C10_isOpen_flags [of c1 "[]" 0 good] h3 by blast
  show ?thesis
    using h0 h1 h2 h3 t1 t2 t3
    by (simp add: Let_def c0_def [symmetric] good_def [symmetric] bad_def [symmetric] c1_def [symmetric])
qed

section \<open>Proofs about the database functions\<close>







lemma date_tags_positions:
  "(j, u) \<in> set (date_tags scan mk rest p) \<longleftrightarrow> p \<le> j \<and> j < p + length rest \<and> tag_at scan mk (rest ! (j - p)) = Some u"
proof (induction rest arbitrary: p)
  case Nil
  show ?case by simp
next
  case (Cons buf rest)
  have IH: "(j, u) \<in> set (date_tags scan mk rest (Suc p))
      \<longleftrightarrow> Suc p \<le> j \<and> j < Suc p + length rest \<and> tag_at scan mk (rest ! (j - Suc p)) = Some u"
    by (rule Cons.IH)
  show ?case
  proof (cases "j = p")
    case True
    have "(p, u) \<notin> set (date_tags scan mk rest (Suc p))" using IH True by simp
    then show ?thesis using True by (auto split: option.splits)
  next
    case False
    have shift: "Suc p \<le> j \<Longrightarrow> (buf # rest) ! (j - p) = rest ! (j - Suc p)"
      by (simp add: nth_Cons' Suc_le_eq)
    show ?thesis
    proof (cases "Suc p \<le> j")
      case True
      then show ?thesis using False IH shift by (auto split: option.splits)
    next
      case lt: False
      with False have "\<not> p \<le> j" by simp
      then show ?thesis using lt IH False by (auto split: option.splits)
    qed
  qed
qed

lemma date_tags_increasing: "sorted_wrt (<) (map fst (date_tags scan mk rest p))"
proof (induction rest arbitrary: p)
  case Nil
  show ?case by simp
next
  case (Cons buf rest)
  have "\<forall>x\<in>set (date_tags scan mk rest (Suc p)). p < fst x"
    using date_tags_positions [of _ _ scan mk rest "Suc p"] by (auto simp add: Suc_le_eq)
  then show ?case using Cons.IH [of "Suc p"] by (auto split: option.splits)
qed















end
